theory Spec2Isabelle
  imports Complex_Main "HOL-Library.Multiset" "HOL-Library.Log_Nat"
begin

section \<open>The data-ingestion step of the pipeline (src/data_ingestion.py)\<close>

text \<open>
  The script downloads a CSV file, drops three columns, renames two, splits the rows into
  a train and a test part and writes both as CSV files. Everything it does is an effect on
  the outside world (files, network, console, log), so the model threads an explicit
  world through each function, and every function that can raise returns a sum whose
  left side is the exception.
\<close>

subsection \<open>Exceptions\<close>

text \<open>
  The Python exception classes the script can meet. The \<open>except\<close> clauses of the source
  dispatch on the class; \<open>msg\<close> is what \<open>str(e)\<close> gives, the text that the handlers
  log and print.
\<close>

datatype exn_kind =
    FileNotFoundError | NotADirectoryError | IsADirectoryError | FileExistsError | OSError
  | YAMLError | ParserError | KeyError | TypeError | ValueError | IndexError | OtherError

datatype exn = Exn (kind: exn_kind) (msg: string)

subsection \<open>Text helpers\<close>

fun join :: "string \<Rightarrow> string list \<Rightarrow> string" where
  "join sep [] = []"
| "join sep [x] = x"
| "join sep (x # y # ys) = x @ sep @ join sep (y # ys)"

text \<open>
  \<open>repr\<close> of a Python string that holds no quote, backslash or control character; the
  script only ever applies it to such names.
\<close>

definition py_repr :: "string \<Rightarrow> string" where
  "py_repr s = [CHR 0x27] @ s @ [CHR 0x27]"

subsection \<open>The file system\<close>

text \<open>
  A path is the list of its components relative to the working directory (\<open>Path("data") /
  "raw"\<close> is \<open>[''data'', ''raw'']\<close>; the empty list is the working directory itself). The
  file system maps a path to a regular file with its text, or to a directory.
\<close>

type_synonym path = "string list"

datatype node = File string | Dir

definition path_str :: "path \<Rightarrow> string" where
  "path_str p = (if p = [] then ''.'' else join ''/'' p)"

definition node_at :: "(path \<rightharpoonup> node) \<Rightarrow> path \<Rightarrow> node option" where
  "node_at f p = (if p = [] then Some Dir else f p)"

text \<open>
  Resolving the ancestors of a path from the working directory down: the first one that is
  missing gives ENOENT, the first one that is a regular file gives ENOTDIR.
\<close>

fun walk :: "(path \<rightharpoonup> node) \<Rightarrow> path \<Rightarrow> path \<Rightarrow> exn_kind option" where
  "walk f pre [] = None"
| "walk f pre (c # cs) =
     (case f (pre @ [c]) of
        None \<Rightarrow> Some FileNotFoundError
      | Some (File t) \<Rightarrow> Some NotADirectoryError
      | Some Dir \<Rightarrow> walk f (pre @ [c]) cs)"

definition os_error :: "exn_kind \<Rightarrow> path \<Rightarrow> exn" where
  "os_error k p =
     Exn k ((if k = FileNotFoundError then ''[Errno 2] No such file or directory: ''
             else if k = NotADirectoryError then ''[Errno 20] Not a directory: ''
             else if k = IsADirectoryError then ''[Errno 21] Is a directory: ''
             else if k = FileExistsError then ''[Errno 17] File exists: ''
             else ''OS error: '') @ py_repr (path_str p))"

subsection \<open>The world\<close>

text \<open>
  A data frame: the column names in order, and the rows in order, each with its index
  label and its cells in column order. The cell type is a parameter: the script never
  looks inside a cell.
\<close>

record 'c dataframe =
  columns :: "string list"
  rows :: "(nat \<times> 'c list) list"

datatype level = DEBUG | ERROR

text \<open>
  \<^item> \<open>fs\<close>: the file system;
  \<^item> \<open>os_fail\<close>: the paths on which the operating system refuses to create or open a
    file for any other reason (permission denied, disk full), with the error text;
  \<^item> \<open>net\<close>: what \<open>pd.read_csv\<close> yields for a URL, a frame or the exception it raises;
  \<^item> \<open>requests\<close>: the URLs fetched so far;
  \<^item> \<open>log\<close>: the records the logger \<open>data_ingestion\<close> has handed to its handlers (the
    stream handler prints each on the console's error stream);
  \<^item> \<open>console\<close>: the lines printed on standard output;
  \<^item> \<open>clock\<close>: the time stamp the log formatter prints.
\<close>

record 'c world =
  fs :: "path \<rightharpoonup> node"
  os_fail :: "path \<rightharpoonup> string"
  net :: "string \<Rightarrow> exn + 'c dataframe"
  requests :: "string list"
  log :: "(level \<times> string) list"
  console :: "string list"
  clock :: string

subsection \<open>Logging (source lines 7 to 26)\<close>

definition log_path :: path where
  "log_path = [''logs'', ''data_ingestion.log'']"

definition level_name :: "level \<Rightarrow> string" where
  "level_name lv = (case lv of DEBUG \<Rightarrow> ''DEBUG'' | ERROR \<Rightarrow> ''ERROR'')"

text \<open>The formatter \<open>%(asctime)s - %(name)s - %(levelname)s - %(message)s\<close>, one line.\<close>

definition format_record :: "string \<Rightarrow> level \<Rightarrow> string \<Rightarrow> string" where
  "format_record t lv m =
     t @ '' - data_ingestion - '' @ level_name lv @ '' - '' @ m @ [CHR 0x0A]"

definition file_text :: "(path \<rightharpoonup> node) \<Rightarrow> path \<Rightarrow> string" where
  "file_text f p = (case f p of Some (File t) \<Rightarrow> t | _ \<Rightarrow> [])"

text \<open>
  One call of \<open>logger.debug\<close> or \<open>logger.error\<close>: both handlers have level DEBUG, so the
  record goes to the stream handler and the file handler, which appends the formatted
  line to \<open>logs/data_ingestion.log\<close> (opened in append mode when the module is loaded).
\<close>

definition emit :: "level \<Rightarrow> string \<Rightarrow> 'c world \<Rightarrow> 'c world" where
  "emit lv m w =
     w\<lparr>log := log w @ [(lv, m)],
       fs := (fs w)(log_path \<mapsto> File (file_text (fs w) log_path @ format_record (clock w) lv m))\<rparr>"

definition print_line :: "string \<Rightarrow> 'c world \<Rightarrow> 'c world" where
  "print_line s w = w\<lparr>console := console w @ [s]\<rparr>"

subsection \<open>File operations\<close>

text \<open>\<open>open(p, "r")\<close> followed by reading the whole file.\<close>

definition open_read :: "path \<Rightarrow> 'c world \<Rightarrow> exn + string" where
  "open_read p w =
     (case walk (fs w) [] (butlast p) of
        Some k \<Rightarrow> Inl (os_error k p)
      | None \<Rightarrow>
          (case node_at (fs w) p of
             None \<Rightarrow> Inl (os_error FileNotFoundError p)
           | Some Dir \<Rightarrow> Inl (os_error IsADirectoryError p)
           | Some (File t) \<Rightarrow>
               (case os_fail w p of
                  Some m \<Rightarrow> Inl (Exn OSError m)
                | None \<Rightarrow> Inr t)))"

text \<open>
  \<open>Path.write_text(data)\<close>: the file is opened in mode \<open>"w"\<close>, which creates it or
  truncates it, and then holds exactly \<open>data\<close>.
\<close>

definition write_text :: "path \<Rightarrow> string \<Rightarrow> 'c world \<Rightarrow> exn + 'c world" where
  "write_text p data w =
     (case walk (fs w) [] (butlast p) of
        Some k \<Rightarrow> Inl (os_error k p)
      | None \<Rightarrow>
          (case node_at (fs w) p of
             Some Dir \<Rightarrow> Inl (os_error IsADirectoryError p)
           | _ \<Rightarrow>
               (case os_fail w p of
                  Some m \<Rightarrow> Inl (Exn OSError m)
                | None \<Rightarrow> Inr (w\<lparr>fs := (fs w)(p \<mapsto> File data)\<rparr>))))"

definition is_dir :: "'c world \<Rightarrow> path \<Rightarrow> bool" where
  "is_dir w p = (walk (fs w) [] (butlast p) = None \<and> node_at (fs w) p = Some Dir)"

text \<open>\<open>os.mkdir(p)\<close>: one directory, whose parent must exist.\<close>

definition os_mkdir :: "path \<Rightarrow> 'c world \<Rightarrow> exn + 'c world" where
  "os_mkdir p w =
     (case walk (fs w) [] (butlast p) of
        Some k \<Rightarrow> Inl (os_error k p)
      | None \<Rightarrow>
          (case node_at (fs w) p of
             Some n \<Rightarrow> Inl (os_error FileExistsError p)
           | None \<Rightarrow>
               (case os_fail w p of
                  Some m \<Rightarrow> Inl (Exn OSError m)
                | None \<Rightarrow> Inr (w\<lparr>fs := (fs w)(p \<mapsto> Dir)\<rparr>))))"

text \<open>
  \<open>Path.mkdir(parents, exist_ok)\<close> as pathlib writes it: try \<open>os.mkdir\<close>; on
  FileNotFoundError create the parent with \<open>parents=True, exist_ok=True\<close> and try once
  more without \<open>parents\<close>; on any other OSError give up unless \<open>exist_ok\<close> holds and the
  path is a directory.
\<close>

function mkdir :: "path \<Rightarrow> bool \<Rightarrow> bool \<Rightarrow> 'c world \<Rightarrow> (exn + unit) \<times> 'c world" where
  "mkdir p parents exist_ok w =
     (case os_mkdir p w of
        Inr w1 \<Rightarrow> (Inr (), w1)
      | Inl e \<Rightarrow>
          if kind e = FileNotFoundError then
            (if \<not> parents \<or> p = [] then (Inl e, w)
             else (case mkdir (butlast p) True True w of
                     (Inl e1, w1) \<Rightarrow> (Inl e1, w1)
                   | (Inr u, w1) \<Rightarrow> mkdir p False exist_ok w1))
          else if \<not> exist_ok \<or> \<not> is_dir w p then (Inl e, w)
          else (Inr (), w))"
  by pat_completeness auto
termination
  by (relation "measure (\<lambda>(p, parents, exist_ok, w). 2 * length p + (if parents then 1 else 0))")
     auto

subsection \<open>Configuration values (yaml.safe_load)\<close>

text \<open>
  What \<open>yaml.safe_load\<close> can return: \<open>None\<close>, a bool, an int, a finite float (given by
  the exact rational value of the double), a string, a list, a dict (its items in
  order), or another object (a date, bytes, a set, a non-finite float), of which only
  the type name is kept.
\<close>

datatype yaml =
    YNull | YBool bool | YInt int | YFloat rat | YStr string
  | YList "yaml list" | YMap "(yaml \<times> yaml) list" | YOther string

text \<open>
  \<open>obj[key]\<close> for a string key: a dict gives the item or raises KeyError (whose text is
  the \<open>repr\<close> of the key); no other of these objects can be indexed by a string.
\<close>

definition subscript :: "yaml \<Rightarrow> string \<Rightarrow> exn + yaml" where
  "subscript obj key =
     (case obj of
        YMap items \<Rightarrow>
          (case map_of items (YStr key) of
             Some v \<Rightarrow> Inr v
           | None \<Rightarrow> Inl (Exn KeyError (py_repr key)))
      | YNull \<Rightarrow> Inl (Exn TypeError (py_repr ''NoneType'' @ '' object is not subscriptable''))
      | YBool b \<Rightarrow> Inl (Exn TypeError (py_repr ''bool'' @ '' object is not subscriptable''))
      | YInt i \<Rightarrow> Inl (Exn TypeError (py_repr ''int'' @ '' object is not subscriptable''))
      | YFloat f \<Rightarrow> Inl (Exn TypeError (py_repr ''float'' @ '' object is not subscriptable''))
      | YStr s \<Rightarrow> Inl (Exn TypeError (''string indices must be integers, not '' @ py_repr ''str''))
      | YList xs \<Rightarrow> Inl (Exn TypeError ''list indices must be integers or slices, not str'')
      | YOther t \<Rightarrow> Inl (Exn TypeError (py_repr t @ '' object is not subscriptable'')))"

subsection \<open>The libraries' parts that the script does not fix\<close>

text \<open>
  \<^item> \<open>yaml_safe_load\<close>: the YAML parser, from the text of a file to its value or the
    exception it raises;
  \<^item> \<open>rng_permutation seed n\<close>: \<open>numpy.random.RandomState(seed).permutation(n)\<close>, the
    shuffle that the split draws from a generator freshly seeded with \<open>seed\<close>;
  \<^item> \<open>cell_text\<close>: the text \<open>to_csv\<close> prints for a cell.
\<close>

record 'c lib =
  yaml_safe_load :: "string \<Rightarrow> exn + yaml"
  rng_permutation :: "nat \<Rightarrow> nat \<Rightarrow> nat list"
  cell_text :: "'c \<Rightarrow> string"

subsection \<open>Python floats (IEEE 754 binary64, round to nearest, ties to even)\<close>

definition round_half_even :: "rat \<Rightarrow> int" where
  "round_half_even y =
     (let k = \<lfloor>y\<rfloor>; r = y - of_int k
      in if r < 1 / 2 then k else if 1 / 2 < r then k + 1 else if even k then k else k + 1)"

text \<open>For \<open>0 < x < 1\<close>: how often \<open>x\<close> must be doubled to reach 1, at most \<open>k\<close> times.\<close>

fun doublings :: "nat \<Rightarrow> rat \<Rightarrow> nat" where
  "doublings 0 x = 0"
| "doublings (Suc k) x = (if 1 \<le> x then 0 else Suc (doublings k (2 * x)))"

text \<open>
  The exponent of the binade of \<open>x > 0\<close>: \<open>\<lfloor>log\<^sub>2 x\<rfloor>\<close>, and \<open>-1022\<close> for every
  subnormal.
\<close>

definition binade :: "rat \<Rightarrow> int" where
  "binade x = (if 1 \<le> x then int (floorlog 2 (nat \<lfloor>x\<rfloor>)) - 1 else - int (doublings 1022 x))"

definition pow2 :: "int \<Rightarrow> rat" where
  "pow2 e = (if 0 \<le> e then 2 ^ nat e else 1 / 2 ^ nat (- e))"

text \<open>
  The double nearest to a rational: 53 significant bits, so the spacing in the binade
  with exponent \<open>e\<close> is \<open>2\<^sup>e\<^sup>-\<^sup>5\<^sup>2\<close>. (Overflow is left out: it needs a value beyond
  \<open>2\<^sup>1\<^sup>0\<^sup>2\<^sup>4\<close>.)
\<close>

definition double_round :: "rat \<Rightarrow> rat" where
  "double_round x =
     (if x = 0 then 0
      else (let q = pow2 (binade \<bar>x\<bar> - 52) in of_int (round_half_even (x / q)) * q))"

text \<open>\<open>f * n\<close> for a float \<open>f\<close> and an int \<open>n \<ge> 0\<close>: the int is converted to a float first.\<close>

definition float_mul_int :: "rat \<Rightarrow> nat \<Rightarrow> rat" where
  "float_mul_int f n = double_round (f * double_round (of_nat n))"

subsection \<open>Data frames (pandas)\<close>

definition py_list_repr :: "string list \<Rightarrow> string" where
  "py_list_repr xs = ''['' @ join '', '' (map py_repr xs) @ '']''"

text \<open>
  \<open>df.drop(columns=labels)\<close>, with the default \<open>errors='raise'\<close>: a label that is not a
  column raises KeyError naming the missing labels (the text of a KeyError is the
  \<open>repr\<close> of its argument); otherwise every column with one of the labels goes.
\<close>

definition drop_columns :: "string list \<Rightarrow> 'c dataframe \<Rightarrow> exn + 'c dataframe" where
  "drop_columns labels df =
     (let missing = filter (\<lambda>l. l \<notin> set (columns df)) labels
      in if missing \<noteq> [] then
           Inl (Exn KeyError
                 ([CHR 0x22] @ py_list_repr missing @ '' not found in axis'' @ [CHR 0x22]))
         else
           Inr \<lparr>columns = filter (\<lambda>c. c \<notin> set labels) (columns df),
                rows = map (\<lambda>(i, cs).
                         (i, map snd (filter (\<lambda>(c, v). c \<notin> set labels) (zip (columns df) cs))))
                       (rows df)\<rparr>)"

text \<open>
  \<open>df.rename(columns=mapper)\<close>, with the default \<open>errors='ignore'\<close>: each column name
  that is a key of the mapper is replaced, a key that names no column is skipped, and
  nothing is raised.
\<close>

definition rename_columns :: "(string \<times> string) list \<Rightarrow> 'c dataframe \<Rightarrow> 'c dataframe" where
  "rename_columns mapper df =
     \<lparr>columns = map (\<lambda>c. case map_of mapper c of Some c' \<Rightarrow> c' | None \<Rightarrow> c) (columns df),
      rows = rows df\<rparr>"

text \<open>Selecting rows by position (\<open>_safe_indexing\<close>, that is \<open>df.iloc[positions]\<close>).\<close>

definition safe_indexing :: "'c dataframe \<Rightarrow> nat list \<Rightarrow> exn + 'c dataframe" where
  "safe_indexing df positions =
     (if list_all (\<lambda>i. i < length (rows df)) positions then
        Inr \<lparr>columns = columns df, rows = map (\<lambda>i. rows df ! i) positions\<rparr>
      else Inl (Exn IndexError ''positional indexers are out-of-bounds''))"

subsection \<open>The split (sklearn.model_selection.train_test_split)\<close>

text \<open>
  \<open>_validate_shuffle_split\<close> with \<open>train_size=None\<close>: from the number of rows and
  \<open>test_size\<close> (a float fraction, an int count, or \<open>None\<close> for the default 0.25) to the
  sizes \<open>(n_train, n_test)\<close>. For a fraction, \<open>n_test = ceil(test_size * n_samples)\<close> in
  float arithmetic.
\<close>

definition fraction_sizes :: "nat \<Rightarrow> rat \<Rightarrow> exn + (int \<times> int)" where
  "fraction_sizes n_samples f =
     (if f \<le> 0 \<or> 1 \<le> f then
        Inl (Exn ValueError ''test_size should be a float in the (0, 1) range'')
      else
        (let n_test = \<lceil>float_mul_int f n_samples\<rceil>;
             n_train = int n_samples - n_test
         in if n_train = 0 then Inl (Exn ValueError ''the resulting train set will be empty'')
            else Inr (n_train, n_test)))"

definition validate_shuffle_split :: "nat \<Rightarrow> yaml \<Rightarrow> exn + (int \<times> int)" where
  "validate_shuffle_split n_samples test_size =
     (case test_size of
        YFloat f \<Rightarrow> fraction_sizes n_samples f
      | YNull \<Rightarrow> fraction_sizes n_samples (1 / 4)
      | YInt k \<Rightarrow>
          if int n_samples \<le> k \<or> k \<le> 0 then
            Inl (Exn ValueError ''test_size should be a positive int smaller than the number of samples'')
          else Inr (int n_samples - k, k)
      | _ \<Rightarrow> Inl (Exn ValueError ''Invalid value for test_size''))"

text \<open>
  \<open>train_test_split(df, test_size=test_size, random_state=seed)\<close> with the defaults
  \<open>shuffle=True, stratify=None\<close>: the sizes are validated, \<open>ShuffleSplit\<close> validates
  them once more as counts, draws one permutation of the positions, cuts the first
  \<open>n_test\<close> of it for the test part and the next \<open>n_train\<close> for the train part, and each
  part is the selection of those rows. The result is \<open>(train, test)\<close>.
\<close>

definition train_test_split ::
    "'c lib \<Rightarrow> 'c dataframe \<Rightarrow> yaml \<Rightarrow> nat \<Rightarrow> exn + ('c dataframe \<times> 'c dataframe)" where
  "train_test_split L df test_size random_state =
     (let n_samples = length (rows df)
      in case validate_shuffle_split n_samples test_size of
           Inl e \<Rightarrow> Inl e
         | Inr (n_train, n_test) \<Rightarrow>
             if n_test \<le> 0 \<or> int n_samples \<le> n_test \<or> n_train \<le> 0 \<or> int n_samples \<le> n_train then
               Inl (Exn ValueError ''test_size or train_size out of range for the number of samples'')
             else
               (let permutation = rng_permutation L random_state n_samples;
                    ind_test = take (nat n_test) permutation;
                    ind_train = take (nat n_train) (drop (nat n_test) permutation)
                in case safe_indexing df ind_train of
                     Inl e \<Rightarrow> Inl e
                   | Inr train \<Rightarrow>
                       (case safe_indexing df ind_test of
                          Inl e \<Rightarrow> Inl e
                        | Inr test \<Rightarrow> Inr (train, test))))"

subsection \<open>Serialisation (DataFrame.to_csv(index=False))\<close>

text \<open>
  One record as \<open>csv.writer\<close> writes it with minimal quoting: a field that holds a comma,
  a double quote or a line break is quoted and its quotes are doubled; a record that is
  one empty field is written as an empty quoted field.
\<close>

definition csv_field :: "string \<Rightarrow> string" where
  "csv_field s =
     (if list_ex (\<lambda>c. c = CHR '','' \<or> c = CHR 0x22 \<or> c = CHR 0x0A \<or> c = CHR 0x0D) s then
        [CHR 0x22] @ concat (map (\<lambda>c. if c = CHR 0x22 then [c, c] else [c]) s) @ [CHR 0x22]
      else s)"

definition csv_line :: "string list \<Rightarrow> string" where
  "csv_line flds =
     (if flds = [[]] then [CHR 0x22, CHR 0x22] else join '','' (map csv_field flds))
     @ [CHR 0x0A]"

text \<open>The records of the file: the header, then one record per row; no index column.\<close>

definition csv_records :: "'c lib \<Rightarrow> 'c dataframe \<Rightarrow> string list list" where
  "csv_records L df = columns df # map (\<lambda>(i, cs). map (cell_text L) cs) (rows df)"

definition to_csv :: "'c lib \<Rightarrow> 'c dataframe \<Rightarrow> string" where
  "to_csv L df = concat (map csv_line (csv_records L df))"

subsection \<open>The stages (source lines 29 to 73)\<close>

text \<open>
  \<open>load_params\<close>: only FileNotFoundError and YAMLError are logged here; any other
  exception of \<open>open\<close> or of the parser passes through unlogged.
\<close>

definition load_params :: "'c lib \<Rightarrow> path \<Rightarrow> 'c world \<Rightarrow> (exn + yaml) \<times> 'c world" where
  "load_params L params_path w =
     (case open_read params_path w of
        Inl e \<Rightarrow>
          if kind e = FileNotFoundError then
            (Inl e, emit ERROR (''File not found: '' @ path_str params_path) w)
          else (Inl e, w)
      | Inr f \<Rightarrow>
          (case yaml_safe_load L f of
             Inl e \<Rightarrow>
               if kind e = YAMLError then (Inl e, emit ERROR (''YAML error: '' @ msg e) w)
               else (Inl e, w)
           | Inr params \<Rightarrow>
               (Inr params, emit DEBUG (''Parameters retrieved from '' @ path_str params_path) w)))"

definition load_data :: "string \<Rightarrow> 'c world \<Rightarrow> (exn + 'c dataframe) \<times> 'c world" where
  "load_data data_url w =
     (let w1 = w\<lparr>requests := requests w @ [data_url]\<rparr>
      in case net w data_url of
           Inr df \<Rightarrow> (Inr df, emit DEBUG (''Data loaded from '' @ data_url) w1)
         | Inl e \<Rightarrow>
             if kind e = ParserError then
               (Inl e, emit ERROR (''Failed to parse the CSV file: '' @ msg e) w1)
             else
               (Inl e, emit ERROR (''Unexpected error occurred while loading the data: '' @ msg e) w1))"

definition preprocess_data :: "'c dataframe \<Rightarrow> 'c world \<Rightarrow> (exn + 'c dataframe) \<times> 'c world" where
  "preprocess_data df w =
     (case drop_columns [''Unnamed: 2'', ''Unnamed: 3'', ''Unnamed: 4''] df of
        Inl e \<Rightarrow>
          if kind e = KeyError then
            (Inl e, emit ERROR (''Missing column in the dataframe: '' @ msg e) w)
          else (Inl e, w)
      | Inr df1 \<Rightarrow>
          (let df2 = rename_columns [(''v1'', ''target''), (''v2'', ''text'')] df1
           in (Inr df2, emit DEBUG ''Data preprocessing completed'' w)))"

definition save_data ::
    "'c lib \<Rightarrow> 'c dataframe \<Rightarrow> 'c dataframe \<Rightarrow> path \<Rightarrow> 'c world \<Rightarrow> (exn + unit) \<times> 'c world" where
  "save_data L train_df test_df data_root w =
     (let raw_dir = data_root @ [''raw''];
          failed = (\<lambda>e w'. (Inl e,
                      emit ERROR (''Unexpected error occurred while saving the data: '' @ msg e) w'))
      in case mkdir raw_dir True True w of
           (Inl e, w1) \<Rightarrow> failed e w1
         | (Inr u, w1) \<Rightarrow>
             (case write_text (raw_dir @ [''train.csv'']) (to_csv L train_df) w1 of
                Inl e \<Rightarrow> failed e w1
              | Inr w2 \<Rightarrow>
                  (case write_text (raw_dir @ [''test.csv'']) (to_csv L test_df) w2 of
                     Inl e \<Rightarrow> failed e w2
                   | Inr w3 \<Rightarrow>
                       (Inr (), emit DEBUG (''Train and test data saved to '' @ path_str raw_dir) w3))))"

subsection \<open>The orchestrator (source lines 76 to 92)\<close>

definition data_url :: string where
  "data_url = ''https://raw.githubusercontent.com/vikashishere/Datasets/main/spam.csv''"

text \<open>The body of the \<open>try\<close> block of \<open>main\<close>: the first exception ends it.\<close>

definition main_try :: "'c lib \<Rightarrow> 'c world \<Rightarrow> (exn + unit) \<times> 'c world" where
  "main_try L w =
     (case load_params L [''params.yaml''] w of
        (Inl e, w1) \<Rightarrow> (Inl e, w1)
      | (Inr params, w1) \<Rightarrow>
          (case subscript params ''data_ingestion'' of
             Inl e \<Rightarrow> (Inl e, w1)
           | Inr section \<Rightarrow>
               (case subscript section ''test_size'' of
                  Inl e \<Rightarrow> (Inl e, w1)
                | Inr test_size \<Rightarrow>
                    (case load_data data_url w1 of
                       (Inl e, w2) \<Rightarrow> (Inl e, w2)
                     | (Inr df, w2) \<Rightarrow>
                         (case preprocess_data df w2 of
                            (Inl e, w3) \<Rightarrow> (Inl e, w3)
                          | (Inr final_df, w3) \<Rightarrow>
                              (case train_test_split L final_df test_size 2 of
                                 Inl e \<Rightarrow> (Inl e, w3)
                               | Inr (train_df, test_df) \<Rightarrow>
                                   save_data L train_df test_df [''data''] w3))))))"

text \<open>
  \<open>main\<close>: \<open>except Exception\<close> catches whatever the body raised, logs it, prints it, and
  the function ends without raising.
\<close>

definition main :: "'c lib \<Rightarrow> 'c world \<Rightarrow> (exn + unit) \<times> 'c world" where
  "main L w =
     (case main_try L w of
        (Inl e, w1) \<Rightarrow>
          (Inr (),
           print_line (''Error: '' @ msg e)
             (emit ERROR (''Failed to complete the data ingestion process: '' @ msg e) w1))
      | (Inr u, w1) \<Rightarrow> (Inr (), w1))"

text \<open>
  Running the file as a script calls \<open>main()\<close>; the interpreter's exit status is 0 when
  the call returns and 1 when an exception leaves it.
\<close>

definition script :: "'c lib \<Rightarrow> 'c world \<Rightarrow> nat \<times> 'c world" where
  "script L w = (case main L w of (Inr u, w1) \<Rightarrow> (0, w1) | (Inl e, w1) \<Rightarrow> (1, w1))"

subsection \<open>Vocabulary of the statements\<close>

text \<open>
  A well-formed frame has as many cells in each row as it has columns, and no index
  label twice (\<open>read_csv\<close> numbers the rows from 0).
\<close>

definition wf_frame :: "'c dataframe \<Rightarrow> bool" where
  "wf_frame df =
     (list_all (\<lambda>r. length (snd r) = length (columns df)) (rows df)
      \<and> distinct (map fst (rows df)))"

text \<open>The cell of row \<open>r\<close> (by position) in column \<open>j\<close> (by position).\<close>

definition cell :: "'c dataframe \<Rightarrow> nat \<Rightarrow> nat \<Rightarrow> 'c" where
  "cell df r j = snd (rows df ! r) ! j"

text \<open>
  A parsed configuration has the split fraction when it is a mapping whose item
  \<open>data_ingestion\<close> is a mapping with an item \<open>test_size\<close>.
\<close>

definition has_test_size :: "yaml \<Rightarrow> bool" where
  "has_test_size params =
     (case params of
        YMap items \<Rightarrow>
          (case map_of items (YStr ''data_ingestion'') of
             Some (YMap sec) \<Rightarrow> map_of sec (YStr ''test_size'') \<noteq> None
           | _ \<Rightarrow> False)
      | _ \<Rightarrow> False)"

text \<open>
  \<open>same_but S w w'\<close>: from \<open>w\<close> to \<open>w'\<close> nothing has changed but the log, the requests, and
  in the file system the paths of \<open>S\<close> and directories that did not exist before.
\<close>

definition same_but :: "path set \<Rightarrow> 'c world \<Rightarrow> 'c world \<Rightarrow> bool" where
  "same_but S w w' =
     (console w' = console w \<and> net w' = net w \<and> os_fail w' = os_fail w \<and> clock w' = clock w
      \<and> (\<forall>p. p \<notin> S \<longrightarrow> fs w' p = fs w p \<or> (fs w p = None \<and> fs w' p = Some Dir)))"

definition train_path :: "path \<Rightarrow> path" where
  "train_path data_root = data_root @ [''raw'', ''train.csv'']"

definition test_path :: "path \<Rightarrow> path" where
  "test_path data_root = data_root @ [''raw'', ''test.csv'']"

subsection \<open>Concrete inputs\<close>

text \<open>The double nearest to 0.2, which is what \<open>test_size: 0.2\<close> parses to.\<close>

definition double_0_2 :: rat where
  "double_0_2 = 3602879701896397 / 18014398509481984"

definition good_config :: yaml where
  "good_config = YMap [(YStr ''data_ingestion'', YMap [(YStr ''test_size'', YFloat double_0_2)])]"

text \<open>
  A library instance: the parser on three texts (a good configuration, an empty file,
  anything else is malformed), rotation by three as the shuffle, text cells.
\<close>

definition example_lib :: "string lib" where
  "example_lib =
     \<lparr>yaml_safe_load = (\<lambda>t.
          if t = ''data_ingestion: {test_size: 0.2}'' then Inr good_config
          else if t = [] then Inr YNull
          else Inl (Exn YAMLError ''while parsing a flow node'')),
      rng_permutation = (\<lambda>seed n. rotate 3 [0..<n]),
      cell_text = (\<lambda>c. c)\<rparr>"

definition example_frame :: "string dataframe" where
  "example_frame =
     \<lparr>columns = [''v1'', ''v2'', ''Unnamed: 2'', ''Unnamed: 3'', ''Unnamed: 4''],
      rows = [(0, [''ham'', ''a'', [], [], []]), (1, [''spam'', ''b'', [], [], []]),
              (2, [''ham'', ''c'', [], [], []]), (3, [''ham'', ''d'', [], [], []]),
              (4, [''spam'', ''e'', [], [], []]), (5, [''ham'', ''f'', [], [], []]),
              (6, [''ham'', ''g'', [], [], []]), (7, [''spam'', ''h'', [], [], []]),
              (8, [''ham'', ''i'', [], [], []]), (9, [''ham'', ''j'', [], [], []])]\<rparr>"

text \<open>The same source without its \<open>v1\<close> column, and without \<open>Unnamed: 3\<close>.\<close>

definition frame_without_v1 :: "string dataframe" where
  "frame_without_v1 =
     \<lparr>columns = [''v2'', ''Unnamed: 2'', ''Unnamed: 3'', ''Unnamed: 4''],
      rows = [(0, [''a'', [], [], []]), (1, [''b'', [], [], []]), (2, [''c'', [], [], []])]\<rparr>"

definition frame_without_unnamed3 :: "string dataframe" where
  "frame_without_unnamed3 =
     \<lparr>columns = [''v1'', ''v2'', ''Unnamed: 2'', ''Unnamed: 4''],
      rows = [(0, [''ham'', ''a'', [], []]), (1, [''spam'', ''b'', [], []])]\<rparr>"

definition example_world :: "string world" where
  "example_world =
     \<lparr>fs = [[''params.yaml''] \<mapsto> File ''data_ingestion: {test_size: 0.2}'',
            [''logs''] \<mapsto> Dir, log_path \<mapsto> File []],
      os_fail = Map.empty,
      net = (\<lambda>u. if u = data_url then Inr example_frame
                 else Inl (Exn OtherError ''HTTP Error 404: Not Found'')),
      requests = [], log = [], console = [], clock = ''2024-01-01 00:00:00,000''\<rparr>"

definition world_malformed_config :: "string world" where
  "world_malformed_config =
     example_world\<lparr>fs := (fs example_world)([''params.yaml''] \<mapsto> File ''data_ingestion: ['')\<rparr>"

definition world_empty_config :: "string world" where
  "world_empty_config =
     example_world\<lparr>fs := (fs example_world)([''params.yaml''] \<mapsto> File [])\<rparr>"

definition world_without_v1 :: "string world" where
  "world_without_v1 = example_world\<lparr>net := (\<lambda>u. Inr frame_without_v1)\<rparr>"

definition world_without_unnamed3 :: "string world" where
  "world_without_unnamed3 = example_world\<lparr>net := (\<lambda>u. Inr frame_without_unnamed3)\<rparr>"

text \<open>An output directory that already holds older files, and another clock.\<close>

definition world_with_old_output :: "string world" where
  "world_with_old_output =
     example_world
       \<lparr>fs := (fs example_world)
                ([''data''] \<mapsto> Dir, [''data'', ''raw''] \<mapsto> Dir,
                 [''data'', ''raw'', ''train.csv''] \<mapsto> File ''old train'',
                 [''data'', ''raw'', ''test.csv''] \<mapsto> File ''old test'',
                 [''data'', ''raw'', ''notes.txt''] \<mapsto> File ''keep''),
         clock := ''2024-06-30 12:00:00,000''\<rparr>"

section \<open>Properties\<close>

subsection \<open>Logging touches the log and the log file only\<close>

lemma emit_fs_other: "p \<noteq> log_path \<Longrightarrow> fs (emit lv m w) p = fs w p"
  by (simp add: emit_def)

lemma emit_fields:
  "log (emit lv m w) = log w @ [(lv, m)]"
  "console (emit lv m w) = console w"
  "requests (emit lv m w) = requests w"
  "net (emit lv m w) = net w"
  "os_fail (emit lv m w) = os_fail w"
  "clock (emit lv m w) = clock w"
  by (simp_all add: emit_def)

lemma emit_log_file:
  "fs (emit lv m w) log_path =
     Some (File (file_text (fs w) log_path @ format_record (clock w) lv m))"
  by (simp add: emit_def)

subsection \<open>Dropping and renaming columns\<close>

lemma drop_columns_Inr:
  "set labels \<subseteq> set (columns df) \<Longrightarrow>
   drop_columns labels df =
     Inr \<lparr>columns = filter (\<lambda>c. c \<notin> set labels) (columns df),
          rows = map (\<lambda>(i, cs).
                   (i, map snd (filter (\<lambda>(c, v). c \<notin> set labels) (zip (columns df) cs))))
                 (rows df)\<rparr>"
  by (auto simp: drop_columns_def Let_def filter_empty_conv)

lemma drop_columns_Inl:
  "\<not> set labels \<subseteq> set (columns df) \<Longrightarrow> \<exists>m. drop_columns labels df = Inl (Exn KeyError m)"
  by (auto simp: drop_columns_def Let_def filter_empty_conv)

lemma kept_cell:
  "length ys = length xs \<Longrightarrow> j < length xs \<Longrightarrow> P (xs ! j) \<Longrightarrow>
   map snd (filter (\<lambda>(c, v). P c) (zip xs ys)) ! length (filter P (take j xs)) = ys ! j"
proof (induction xs arbitrary: ys j)
  case Nil
  then show ?case by simp
next
  case (Cons x xs)
  then obtain y ys' where ys: "ys = y # ys'" by (cases ys) auto
  show ?case
  proof (cases j)
    case 0
    with Cons.prems ys show ?thesis by simp
  next
    case (Suc k)
    with Cons.prems ys
    have "map snd (filter (\<lambda>(c, v). P c) (zip xs ys')) ! length (filter P (take k xs)) = ys' ! k"
      by (intro Cons.IH) auto
    with Suc ys show ?thesis by simp
  qed
qed

lemma kept_name:
  "j < length xs \<Longrightarrow> P (xs ! j) \<Longrightarrow> filter P xs ! length (filter P (take j xs)) = xs ! j"
proof (induction xs arbitrary: j)
  case Nil
  then show ?case by simp
next
  case (Cons x xs)
  then show ?case by (cases j) auto
qed

lemma kept_index_less:
  "j < length xs \<Longrightarrow> P (xs ! j) \<Longrightarrow> length (filter P (take j xs)) < length (filter P xs)"
proof (induction xs arbitrary: j)
  case Nil
  then show ?case by simp
next
  case (Cons x xs)
  then show ?case by (cases j) auto
qed

lemma kept_cells_length:
  "length ys = length xs \<Longrightarrow>
   length (map snd (filter (\<lambda>(c, v). P c) (zip xs ys))) = length (filter P xs)"
proof (induction xs arbitrary: ys)
  case Nil
  then show ?case by simp
next
  case (Cons x xs)
  then show ?case by (cases ys) auto
qed

text \<open>What \<open>preprocess_data\<close> returns when the three placeholder columns are there.\<close>

lemma preprocess_data_Inr:
  assumes "{''Unnamed: 2'', ''Unnamed: 3'', ''Unnamed: 4''} \<subseteq> set (columns df)"
  shows "preprocess_data df w =
     (Inr (rename_columns [(''v1'', ''target''), (''v2'', ''text'')]
            \<lparr>columns = filter (\<lambda>c. c \<notin> {''Unnamed: 2'', ''Unnamed: 3'', ''Unnamed: 4''}) (columns df),
             rows = map (\<lambda>(i, cs).
                      (i, map snd (filter (\<lambda>(c, v). c \<notin> {''Unnamed: 2'', ''Unnamed: 3'', ''Unnamed: 4''})
                                     (zip (columns df) cs))))
                    (rows df)\<rparr>),
      emit DEBUG ''Data preprocessing completed'' w)"
proof -
  have "set [''Unnamed: 2'', ''Unnamed: 3'', ''Unnamed: 4''] \<subseteq> set (columns df)"
    using assms by simp
  from drop_columns_Inr [OF this] show ?thesis
    by (simp add: preprocess_data_def)
qed

lemma preprocess_data_Inl:
  assumes "\<not> {''Unnamed: 2'', ''Unnamed: 3'', ''Unnamed: 4''} \<subseteq> set (columns df)"
  shows "\<exists>m. preprocess_data df w =
     (Inl (Exn KeyError m), emit ERROR (''Missing column in the dataframe: '' @ m) w)"
proof -
  have "\<not> set [''Unnamed: 2'', ''Unnamed: 3'', ''Unnamed: 4''] \<subseteq> set (columns df)"
    using assms by simp
  from drop_columns_Inl [OF this] obtain m
    where "drop_columns [''Unnamed: 2'', ''Unnamed: 3'', ''Unnamed: 4''] df = Inl (Exn KeyError m)" ..
  then show ?thesis by (simp add: preprocess_data_def)
qed
text \<open>
  Claim C8. For every data frame that has the three columns \<open>Unnamed: 2\<close>, \<open>Unnamed: 3\<close>
  and \<open>Unnamed: 4\<close>, \<open>preprocess_data\<close> returns a frame, whether or not \<open>v1\<close> and \<open>v2\<close>
  are columns: the rename step replaces the names it finds and skips the others. The
  function raises exactly when one of the three placeholder columns is missing, and what
  it raises then is a KeyError.
\<close>

theorem preprocess_data_fails_only_on_placeholders:
  "({''Unnamed: 2'', ''Unnamed: 3'', ''Unnamed: 4''} \<subseteq> set (columns df) \<longrightarrow>
      (\<exists>df'. preprocess_data df w = (Inr df', emit DEBUG ''Data preprocessing completed'' w)
         \<and> columns df' =
             map (\<lambda>c. if c = ''v1'' then ''target'' else if c = ''v2'' then ''text'' else c)
               (filter (\<lambda>c. c \<notin> {''Unnamed: 2'', ''Unnamed: 3'', ''Unnamed: 4''}) (columns df))))
   \<and> (\<forall>e w'. preprocess_data df w = (Inl e, w') \<longrightarrow>
         kind e = KeyError
         \<and> \<not> {''Unnamed: 2'', ''Unnamed: 3'', ''Unnamed: 4''} \<subseteq> set (columns df))"
proof (cases "{''Unnamed: 2'', ''Unnamed: 3'', ''Unnamed: 4''} \<subseteq> set (columns df)")
  case True
  have "(\<lambda>c. case map_of [(''v1'', ''target''), (''v2'', ''text'')] c of
               Some c' \<Rightarrow> c' | None \<Rightarrow> c)
        = (\<lambda>c. if c = ''v1'' then ''target'' else if c = ''v2'' then ''text'' else c)"
    by (rule ext) simp
  with preprocess_data_Inr [OF True, of w] True show ?thesis
    by (simp add: rename_columns_def)
next
  case False
  from preprocess_data_Inl [OF False, of w] False show ?thesis
    by auto
qed

theorem preprocess_data_fails_only_on_placeholders_witness:
  "{''Unnamed: 2'', ''Unnamed: 3'', ''Unnamed: 4''} \<subseteq> set (columns frame_without_v1)
   \<and> ''v1'' \<notin> set (columns frame_without_v1)
   \<and> (\<exists>df'. preprocess_data frame_without_v1 example_world
               = (Inr df', emit DEBUG ''Data preprocessing completed'' example_world)
         \<and> columns df' = [''text''])
   \<and> fst (preprocess_data frame_without_unnamed3 example_world)
       = Inl (Exn KeyError ([CHR 0x22] @ ''['' @ py_repr ''Unnamed: 3'' @ '']''
                              @ '' not found in axis'' @ [CHR 0x22]))
   \<and> kind (Exn KeyError ([CHR 0x22] @ ''['' @ py_repr ''Unnamed: 3'' @ '']''
                              @ '' not found in axis'' @ [CHR 0x22])) = KeyError
   \<and> \<not> {''Unnamed: 2'', ''Unnamed: 3'', ''Unnamed: 4''} \<subseteq> set (columns frame_without_unnamed3)"
proof -
  have sub: "{''Unnamed: 2'', ''Unnamed: 3'', ''Unnamed: 4''} \<subseteq> set (columns frame_without_v1)"
    by (simp add: frame_without_v1_def)
  have cols: "map (\<lambda>c. if c = ''v1'' then ''target'' else if c = ''v2'' then ''text'' else c)
               (filter (\<lambda>c. c \<notin> {''Unnamed: 2'', ''Unnamed: 3'', ''Unnamed: 4''})
                  (columns frame_without_v1)) = [''text'']"
    by (simp add: frame_without_v1_def)
  have fails: "preprocess_data frame_without_unnamed3 example_world
      = (Inl (Exn KeyError ([CHR 0x22] @ ''['' @ py_repr ''Unnamed: 3'' @ '']''
                              @ '' not found in axis'' @ [CHR 0x22])),
         emit ERROR (''Missing column in the dataframe: '' @ [CHR 0x22] @ ''['' @ py_repr ''Unnamed: 3'' @ '']''
                              @ '' not found in axis'' @ [CHR 0x22]) example_world)"
    by (simp add: preprocess_data_def drop_columns_def frame_without_unnamed3_def
        py_list_repr_def)
  from preprocess_data_fails_only_on_placeholders [of frame_without_v1 example_world] sub cols
  have one: "\<exists>df'. preprocess_data frame_without_v1 example_world
               = (Inr df', emit DEBUG ''Data preprocessing completed'' example_world)
         \<and> columns df' = [''text'']"
    by simp
  from preprocess_data_fails_only_on_placeholders [of frame_without_unnamed3 example_world] fails
  have two: "\<not> {''Unnamed: 2'', ''Unnamed: 3'', ''Unnamed: 4''} \<subseteq> set (columns frame_without_unnamed3)"
    by blast
  have "''v1'' \<notin> set (columns frame_without_v1)"
    by (simp add: frame_without_v1_def)
  with sub one two fails show ?thesis by simp
qed

text \<open>
  Claim C5. For every well-formed data frame that has the five columns \<open>Unnamed: 2\<close>,
  \<open>Unnamed: 3\<close>, \<open>Unnamed: 4\<close>, \<open>v1\<close> and \<open>v2\<close>, \<open>preprocess_data\<close> returns a frame
  whose columns are the columns of the input that are not one of the three placeholders,
  in the same order, with \<open>v1\<close> named \<open>target\<close>, \<open>v2\<close> named \<open>text\<close> and every other
  name as it was; the index labels and the order of the rows are the same; and every
  kept column, at its new position, holds in every row the cell it held before.
\<close>

theorem preprocess_data_drops_and_renames:
  assumes five: "{''Unnamed: 2'', ''Unnamed: 3'', ''Unnamed: 4'', ''v1'', ''v2''} \<subseteq> set (columns df)"
      and wf: "wf_frame df"
  shows "\<exists>df'. fst (preprocess_data df w) = Inr df'
     \<and> columns df' =
         map (\<lambda>c. if c = ''v1'' then ''target'' else if c = ''v2'' then ''text'' else c)
           (filter (\<lambda>c. c \<notin> {''Unnamed: 2'', ''Unnamed: 3'', ''Unnamed: 4''}) (columns df))
     \<and> set (columns df') \<inter> {''Unnamed: 2'', ''Unnamed: 3'', ''Unnamed: 4'', ''v1'', ''v2''} = {}
     \<and> ''target'' \<in> set (columns df') \<and> ''text'' \<in> set (columns df')
     \<and> map fst (rows df') = map fst (rows df)
     \<and> wf_frame df'
     \<and> (\<forall>j < length (columns df).
           columns df ! j \<notin> {''Unnamed: 2'', ''Unnamed: 3'', ''Unnamed: 4''} \<longrightarrow>
           (let j' = length (filter (\<lambda>c. c \<notin> {''Unnamed: 2'', ''Unnamed: 3'', ''Unnamed: 4''})
                               (take j (columns df)))
            in j' < length (columns df')
               \<and> columns df' ! j' =
                   (if columns df ! j = ''v1'' then ''target''
                    else if columns df ! j = ''v2'' then ''text'' else columns df ! j)
               \<and> (\<forall>r < length (rows df). cell df' r j' = cell df r j)))"
proof -
  let ?keep = "\<lambda>c. c \<notin> {''Unnamed: 2'', ''Unnamed: 3'', ''Unnamed: 4''}"
  let ?ren = "\<lambda>c. if c = ''v1'' then ''target'' else if c = ''v2'' then ''text'' else c"
  define df' where "df' = \<lparr>columns = map ?ren (filter ?keep (columns df)),
      rows = map (\<lambda>(i, cs). (i, map snd (filter (\<lambda>(c, v). ?keep c) (zip (columns df) cs))))
               (rows df)\<rparr>"
  have ren: "(\<lambda>c. case map_of [(''v1'', ''target''), (''v2'', ''text'')] c of
               Some c' \<Rightarrow> c' | None \<Rightarrow> c) = ?ren"
    by (rule ext) simp
  have sub: "{''Unnamed: 2'', ''Unnamed: 3'', ''Unnamed: 4''} \<subseteq> set (columns df)"
    using five by simp
  have res: "fst (preprocess_data df w) = Inr df'"
    using preprocess_data_Inr [OF sub, of w] ren
    by (simp add: rename_columns_def df'_def)
  have cols: "columns df' = map ?ren (filter ?keep (columns df))"
    by (simp add: df'_def)
  have rws: "rows df' = map (\<lambda>(i, cs). (i, map snd (filter (\<lambda>(c, v). ?keep c) (zip (columns df) cs))))
               (rows df)"
    by (simp add: df'_def)
  have len: "length (snd r) = length (columns df)" if "r \<in> set (rows df)" for r
    using wf that by (simp add: wf_frame_def list_all_iff)
  have gone: "set (columns df') \<inter> {''Unnamed: 2'', ''Unnamed: 3'', ''Unnamed: 4'', ''v1'', ''v2''} = {}"
    unfolding cols by auto
  have "''v1'' \<in> set (filter ?keep (columns df))" "''v2'' \<in> set (filter ?keep (columns df))"
    using five by auto
  then have "?ren ''v1'' \<in> set (columns df')" "?ren ''v2'' \<in> set (columns df')"
    unfolding cols set_map by (blast, blast)
  then have new: "''target'' \<in> set (columns df')" "''text'' \<in> set (columns df')"
    by simp_all
  have idx: "map fst (rows df') = map fst (rows df)"
    unfolding rws by (induction "rows df") (auto split: prod.splits)
  have wf': "wf_frame df'"
  proof -
    have "length (snd r') = length (columns df')" if "r' \<in> set (rows df')" for r'
    proof -
      from that obtain i cs where r: "(i, cs) \<in> set (rows df)"
        and r': "r' = (i, map snd (filter (\<lambda>(c, v). ?keep c) (zip (columns df) cs)))"
        unfolding rws by auto
      from len [OF r] have "length cs = length (columns df)" by simp
      from kept_cells_length [OF this, of ?keep] show ?thesis
        by (simp add: r' cols)
    qed
    moreover have "distinct (map fst (rows df'))"
      using wf by (simp add: idx wf_frame_def)
    ultimately show ?thesis
      by (simp add: wf_frame_def list_all_iff)
  qed
  have pos: "length (filter ?keep (take j (columns df))) < length (columns df')
      \<and> columns df' ! length (filter ?keep (take j (columns df))) = ?ren (columns df ! j)
      \<and> (\<forall>r < length (rows df).
            cell df' r (length (filter ?keep (take j (columns df)))) = cell df r j)"
    if j: "j < length (columns df)" and keep: "?keep (columns df ! j)" for j
  proof -
    let ?j' = "length (filter ?keep (take j (columns df)))"
    have less: "?j' < length (filter ?keep (columns df))"
      by (rule kept_index_less [OF j]) (rule keep)
    then have a: "?j' < length (columns df')"
      by (simp add: cols)
    have "filter ?keep (columns df) ! ?j' = columns df ! j"
      by (rule kept_name [OF j]) (rule keep)
    with less have b: "columns df' ! ?j' = ?ren (columns df ! j)"
      by (simp add: cols)
    have c: "cell df' r ?j' = cell df r j" if r: "r < length (rows df)" for r
    proof -
      obtain i cs where row: "rows df ! r = (i, cs)" by (cases "rows df ! r")
      with r have "(i, cs) \<in> set (rows df)" by (metis nth_mem)
      from len [OF this] have l: "length cs = length (columns df)" by simp
      have "rows df' ! r = (i, map snd (filter (\<lambda>(c, v). ?keep c) (zip (columns df) cs)))"
        using r row by (simp add: rws)
      moreover have "map snd (filter (\<lambda>(c, v). ?keep c) (zip (columns df) cs)) ! ?j' = cs ! j"
        by (rule kept_cell [OF l j]) (rule keep)
      ultimately show ?thesis
        using row by (simp add: cell_def)
    qed
    from a b c show ?thesis by blast
  qed
  from res cols gone new idx wf' pos show ?thesis
    unfolding Let_def by (intro exI [of _ df']) blast
qed

theorem preprocess_data_drops_and_renames_witness:
  "{''Unnamed: 2'', ''Unnamed: 3'', ''Unnamed: 4'', ''v1'', ''v2''} \<subseteq> set (columns example_frame)
   \<and> wf_frame example_frame
   \<and> (\<exists>df'. fst (preprocess_data example_frame example_world) = Inr df'
         \<and> columns df' = [''target'', ''text'']
         \<and> map fst (rows df') = [0, 1, 2, 3, 4, 5, 6, 7, 8, 9]
         \<and> wf_frame df')"
proof -
  have five: "{''Unnamed: 2'', ''Unnamed: 3'', ''Unnamed: 4'', ''v1'', ''v2''} \<subseteq> set (columns example_frame)"
    by (simp add: example_frame_def)
  have wf: "wf_frame example_frame"
    by (simp add: example_frame_def wf_frame_def)
  have cols: "map (\<lambda>c. if c = ''v1'' then ''target'' else if c = ''v2'' then ''text'' else c)
       (filter (\<lambda>c. c \<notin> {''Unnamed: 2'', ''Unnamed: 3'', ''Unnamed: 4''}) (columns example_frame))
     = [''target'', ''text'']"
    by (simp add: example_frame_def)
  have idx: "map fst (rows example_frame) = [0, 1, 2, 3, 4, 5, 6, 7, 8, 9]"
    by (simp add: example_frame_def)
  from preprocess_data_drops_and_renames [OF five wf, of example_world]
  obtain df' where "fst (preprocess_data example_frame example_world) = Inr df'"
    and "columns df' =
         map (\<lambda>c. if c = ''v1'' then ''target'' else if c = ''v2'' then ''text'' else c)
           (filter (\<lambda>c. c \<notin> {''Unnamed: 2'', ''Unnamed: 3'', ''Unnamed: 4''}) (columns example_frame))"
    and "map fst (rows df') = map fst (rows example_frame)"
    and "wf_frame df'"
    by blast
  with cols idx have "fst (preprocess_data example_frame example_world) = Inr df'
         \<and> columns df' = [''target'', ''text'']
         \<and> map fst (rows df') = [0, 1, 2, 3, 4, 5, 6, 7, 8, 9]
         \<and> wf_frame df'"
    by simp
  then have "\<exists>df'. fst (preprocess_data example_frame example_world) = Inr df'
         \<and> columns df' = [''target'', ''text'']
         \<and> map fst (rows df') = [0, 1, 2, 3, 4, 5, 6, 7, 8, 9]
         \<and> wf_frame df'" ..
  with five wf show ?thesis by blast
qed

subsection \<open>What each stage leaves alone\<close>

lemma same_but_refl: "same_but S w w"
  by (simp add: same_but_def)

lemma same_but_trans: "same_but S w w1 \<Longrightarrow> same_but S w1 w2 \<Longrightarrow> same_but S w w2"
  unfolding same_but_def by (metis option.distinct(1))

lemma same_but_mono: "same_but S w w1 \<Longrightarrow> S \<subseteq> T \<Longrightarrow> same_but T w w1"
  unfolding same_but_def by blast

lemma same_but_emit: "log_path \<in> S \<Longrightarrow> same_but S w (emit lv m w)"
  by (auto simp: same_but_def emit_def)

lemma same_but_requests: "same_but S w (w\<lparr>requests := rs\<rparr>)"
  by (simp add: same_but_def)

lemma os_mkdir_same_but: "os_mkdir p w = Inr w1 \<Longrightarrow> same_but S w w1 \<and> log w1 = log w \<and> requests w1 = requests w"
  by (auto simp: os_mkdir_def same_but_def node_at_def
           split: option.splits if_splits)

lemma mkdir_same_but:
  "mkdir p parents exist_ok w = (r, w1) \<Longrightarrow>
   same_but S w w1 \<and> log w1 = log w \<and> requests w1 = requests w"
proof (induction p parents exist_ok w arbitrary: r w1 rule: mkdir.induct)
  case (1 p parents exist_ok w)
  show ?case
  proof (cases "os_mkdir p w")
    case (Inr w')
    with "1.prems" have "w1 = w'" by simp
    with os_mkdir_same_but [OF Inr] show ?thesis by simp
  next
    case (Inl e)
    show ?thesis
    proof (cases "kind e = FileNotFoundError \<and> parents \<and> p \<noteq> []")
      case False
      with "1.prems" Inl have "w1 = w" by (auto split: if_splits)
      then show ?thesis by (simp add: same_but_refl)
    next
      case True
      obtain r2 w2 where up: "mkdir (butlast p) True True w = (r2, w2)"
        by (cases "mkdir (butlast p) True True w")
      from True Inl have ih1: "same_but S w w2 \<and> log w2 = log w \<and> requests w2 = requests w"
        by (intro "1.IH"(1) [OF Inl _ _ up]) auto
      show ?thesis
      proof (cases r2)
        case (Inl e2)
        with "1.prems" \<open>os_mkdir p w = Inl e\<close> True up have "w1 = w2" by simp
        with ih1 show ?thesis by simp
      next
        case (Inr u)
        with "1.prems" \<open>os_mkdir p w = Inl e\<close> True up
        have again: "mkdir p False exist_ok w2 = (r, w1)" by simp
        from True \<open>os_mkdir p w = Inl e\<close> up Inr
        have "same_but S w2 w1 \<and> log w1 = log w2 \<and> requests w1 = requests w2"
          by (intro "1.IH"(2) [OF \<open>os_mkdir p w = Inl e\<close> _ _ _ _ again]) auto
        with ih1 show ?thesis by (auto intro: same_but_trans)
      qed
    qed
  qed
qed

lemma write_text_same_but:
  "write_text p t w = Inr w1 \<Longrightarrow>
   p \<in> S \<Longrightarrow> same_but S w w1 \<and> log w1 = log w \<and> requests w1 = requests w"
  by (auto simp: write_text_def same_but_def split: option.splits node.splits if_splits)

lemma write_text_content:
  "write_text p t w = Inr w1 \<Longrightarrow> fs w1 p = Some (File t) \<and> (\<forall>q. q \<noteq> p \<longrightarrow> fs w1 q = fs w q)"
  by (auto simp: write_text_def split: option.splits node.splits)


lemma load_params_world:
  "load_params L p w = (r, w1) \<Longrightarrow> w1 = w \<or> (\<exists>lv m. w1 = emit lv m w)"
  by (auto simp: load_params_def split: sum.splits if_splits)

lemma load_data_world:
  "load_data url w = (r, w1) \<Longrightarrow>
   r = net w url \<and> (\<exists>lv m. w1 = emit lv m (w\<lparr>requests := requests w @ [url]\<rparr>))"
  by (auto simp: load_data_def Let_def split: sum.splits if_splits)

lemma preprocess_data_world:
  "preprocess_data df w = (r, w1) \<Longrightarrow> w1 = w \<or> (\<exists>lv m. w1 = emit lv m w)"
  by (auto simp: preprocess_data_def Let_def split: sum.splits if_splits)

lemma load_params_same_but:
  "load_params L p w = (r, w1) \<Longrightarrow> log_path \<in> S \<Longrightarrow> same_but S w w1 \<and> requests w1 = requests w"
  by (auto dest!: load_params_world simp: same_but_refl same_but_emit emit_fields)

lemma load_data_same_but:
  "load_data url w = (r, w1) \<Longrightarrow>
   log_path \<in> S \<Longrightarrow> same_but S w w1 \<and> requests w1 = requests w @ [url]"
  by (auto dest!: load_data_world simp: emit_fields
           intro: same_but_trans [OF same_but_requests same_but_emit])

lemma preprocess_data_same_but:
  "preprocess_data df w = (r, w1) \<Longrightarrow> log_path \<in> S \<Longrightarrow> same_but S w w1 \<and> requests w1 = requests w"
  by (auto dest!: preprocess_data_world simp: same_but_refl same_but_emit emit_fields)

text \<open>
  \<open>save_data\<close> ends with one log record, written after the directory and the files; up
  to there only the two output paths and new directories have changed.
\<close>

lemma save_data_world:
  assumes "save_data L train_df test_df data_root w = (r, w')"
    and S: "{train_path data_root, test_path data_root} \<subseteq> S"
  shows "\<exists>v lv m. w' = emit lv m v \<and> same_but S w v \<and> requests v = requests w \<and> log v = log w"
proof -
  obtain r1 w1 where mk: "mkdir (data_root @ [''raw'']) True True w = (r1, w1)"
    by (cases "mkdir (data_root @ [''raw'']) True True w")
  from mkdir_same_but [OF mk, of S]
  have f1: "same_but S w w1 \<and> requests w1 = requests w \<and> log w1 = log w" by simp
  show ?thesis
  proof (cases r1)
    case (Inl e)
    with assms(1) mk have "w' = emit ERROR (''Unexpected error occurred while saving the data: '' @ msg e) w1"
      by (simp add: save_data_def Let_def)
    with f1 show ?thesis by blast
  next
    case (Inr u)
    show ?thesis
    proof (cases "write_text (data_root @ [''raw''] @ [''train.csv'']) (to_csv L train_df) w1")
      case (Inl e)
      with assms(1) mk Inr
      have "w' = emit ERROR (''Unexpected error occurred while saving the data: '' @ msg e) w1"
        by (simp add: save_data_def Let_def)
      with f1 show ?thesis by blast
    next
      case wr1: (Inr w2)
      have "data_root @ [''raw''] @ [''train.csv''] \<in> S"
        using S by (simp add: train_path_def)
      from write_text_same_but [OF wr1 this] f1
      have f2: "same_but S w w2 \<and> requests w2 = requests w \<and> log w2 = log w"
        by (auto intro: same_but_trans)
      show ?thesis
      proof (cases "write_text (data_root @ [''raw''] @ [''test.csv'']) (to_csv L test_df) w2")
        case (Inl e)
        with assms(1) mk Inr wr1
        have "w' = emit ERROR (''Unexpected error occurred while saving the data: '' @ msg e) w2"
          by (simp add: save_data_def Let_def)
        with f2 show ?thesis by blast
      next
        case wr2: (Inr w3)
        have "data_root @ [''raw''] @ [''test.csv''] \<in> S"
          using S by (simp add: test_path_def)
        from write_text_same_but [OF wr2 this] f2
        have f3: "same_but S w w3 \<and> requests w3 = requests w \<and> log w3 = log w"
          by (auto intro: same_but_trans)
        from assms(1) mk Inr wr1 wr2
        have "w' = emit DEBUG (''Train and test data saved to '' @ path_str (data_root @ [''raw''])) w3"
          by (simp add: save_data_def Let_def)
        with f3 show ?thesis by blast
      qed
    qed
  qed
qed

lemma save_data_same_but:
  assumes "save_data L train_df test_df data_root w = (r, w')"
    and S: "{log_path, train_path data_root, test_path data_root} \<subseteq> S"
  shows "same_but S w w' \<and> requests w' = requests w"
proof -
  from save_data_world [OF assms(1), of S] S obtain v lv m
    where "w' = emit lv m v" "same_but S w v" "requests v = requests w"
    by auto
  moreover from S have "same_but S v (emit lv m v)"
    by (simp add: same_but_emit)
  ultimately show ?thesis
    by (auto intro: same_but_trans simp: emit_fields)
qed

text \<open>A successful \<open>save_data\<close> leaves exactly the two serialisations in the two files.\<close>

lemma save_data_content:
  assumes "save_data L train_df test_df data_root w = (Inr u, w')"
  shows "fs w' (train_path data_root) = Some (File (to_csv L train_df))
       \<and> fs w' (test_path data_root) = Some (File (to_csv L test_df))"
proof -
  obtain r1 w1 where mk: "mkdir (data_root @ [''raw'']) True True w = (r1, w1)"
    by (cases "mkdir (data_root @ [''raw'']) True True w")
  from assms mk obtain w2 w3 where
    wr1: "write_text (data_root @ [''raw''] @ [''train.csv'']) (to_csv L train_df) w1 = Inr w2"
    and wr2: "write_text (data_root @ [''raw''] @ [''test.csv'']) (to_csv L test_df) w2 = Inr w3"
    and w': "w' = emit DEBUG (''Train and test data saved to '' @ path_str (data_root @ [''raw''])) w3"
    by (auto simp: save_data_def Let_def split: sum.splits)
  have ne: "train_path data_root \<noteq> log_path" "test_path data_root \<noteq> log_path"
    "train_path data_root \<noteq> test_path data_root"
    by (auto simp: train_path_def test_path_def log_path_def)
  from write_text_content [OF wr1] have "fs w2 (train_path data_root) = Some (File (to_csv L train_df))"
    by (simp add: train_path_def)
  with write_text_content [OF wr2] ne
  have "fs w3 (train_path data_root) = Some (File (to_csv L train_df))"
    "fs w3 (test_path data_root) = Some (File (to_csv L test_df))"
    by (simp_all add: train_path_def test_path_def)
  with ne show ?thesis
    by (simp add: w' emit_fs_other)
qed

text \<open>
  Claim C10, as stated, fails: \<open>save_data\<close> also changes the log file. Here the call
  succeeds, and \<open>logs/data_ingestion.log\<close>, which is neither of the two output paths and
  was empty, holds the record of the call afterwards.
\<close>

theorem save_data_changes_log_file:
  "log_path \<notin> {train_path [''data''], test_path [''data'']}
   \<and> fs example_world log_path = Some (File [])
   \<and> fst (save_data example_lib frame_without_v1 frame_without_unnamed3 [''data''] example_world)
       = Inr ()
   \<and> fs (snd (save_data example_lib frame_without_v1 frame_without_unnamed3 [''data'']
               example_world)) log_path
       = Some (File (''2024-01-01 00:00:00,000 - data_ingestion - DEBUG - ''
                     @ ''Train and test data saved to data/raw'' @ [CHR 0x0A]))"
  by (simp add: save_data_def Let_def example_world_def write_text_def os_mkdir_def
      node_at_def log_path_def train_path_def test_path_def emit_def file_text_def
      format_record_def level_name_def path_str_def is_dir_def os_error_def)

text \<open>
  Claim C10 (amended). For every state of the world and every data root, \<open>save_data\<close>
  changes no file other than \<open>train.csv\<close> and \<open>test.csv\<close> under \<open>data_root/raw\<close> and the
  log file \<open>logs/data_ingestion.log\<close>, to which exactly one formatted record is appended:
  every other path is as before, or is a directory that did not exist before. Whenever
  \<open>save_data\<close> returns normally, the two files hold exactly the new serialisations,
  whatever was at their paths before.
\<close>

theorem save_data_replaces_outputs_only:
  "(\<forall>p. p \<notin> {train_path data_root, test_path data_root, log_path} \<longrightarrow>
        fs (snd (save_data L train_df test_df data_root w)) p = fs w p
        \<or> (fs w p = None \<and> fs (snd (save_data L train_df test_df data_root w)) p = Some Dir))
   \<and> (\<exists>lv m. fs (snd (save_data L train_df test_df data_root w)) log_path
                = Some (File (file_text (fs w) log_path @ format_record (clock w) lv m)))
   \<and> (fst (save_data L train_df test_df data_root w) = Inr () \<longrightarrow>
        fs (snd (save_data L train_df test_df data_root w)) (train_path data_root)
          = Some (File (to_csv L train_df))
        \<and> fs (snd (save_data L train_df test_df data_root w)) (test_path data_root)
          = Some (File (to_csv L test_df)))"
proof -
  obtain r w' where run: "save_data L train_df test_df data_root w = (r, w')"
    by (cases "save_data L train_df test_df data_root w")
  have "same_but {train_path data_root, test_path data_root, log_path} w w'"
    using save_data_same_but [OF run, of "{train_path data_root, test_path data_root, log_path}"]
    by simp
  then have frame: "\<forall>p. p \<notin> {train_path data_root, test_path data_root, log_path} \<longrightarrow>
        fs w' p = fs w p \<or> (fs w p = None \<and> fs w' p = Some Dir)"
    by (simp add: same_but_def)
  from save_data_world [OF run, of "{train_path data_root, test_path data_root}"]
  obtain v lv m where w': "w' = emit lv m v"
    and v: "same_but {train_path data_root, test_path data_root} w v"
    by auto
  have "log_path \<notin> {train_path data_root, test_path data_root}"
    by (auto simp: train_path_def test_path_def log_path_def)
  with v have "fs v log_path = fs w log_path \<or> (fs w log_path = None \<and> fs v log_path = Some Dir)"
    and "clock v = clock w"
    by (simp_all add: same_but_def)
  then have "file_text (fs v) log_path = file_text (fs w) log_path" "clock v = clock w"
    by (auto simp: file_text_def)
  then have logf: "fs w' log_path
      = Some (File (file_text (fs w) log_path @ format_record (clock w) lv m))"
    by (simp add: w' emit_log_file)
  have content: "fs w' (train_path data_root) = Some (File (to_csv L train_df))
        \<and> fs w' (test_path data_root) = Some (File (to_csv L test_df))" if "r = Inr ()"
    using save_data_content [of L train_df test_df data_root w "()" w'] run that by simp
  from frame logf content show ?thesis
    by (simp add: run) blast
qed

theorem save_data_replaces_outputs_only_witness:
  "[''data'', ''raw'', ''notes.txt'']
      \<notin> {train_path [''data''], test_path [''data''], log_path}
   \<and> fs world_with_old_output (train_path [''data'']) = Some (File ''old train'')
   \<and> fs world_with_old_output (test_path [''data'']) = Some (File ''old test'')
   \<and> fst (save_data example_lib frame_without_v1 frame_without_unnamed3 [''data'']
            world_with_old_output) = Inr ()
   \<and> fs (snd (save_data example_lib frame_without_v1 frame_without_unnamed3 [''data'']
               world_with_old_output)) (train_path [''data''])
       = Some (File (to_csv example_lib frame_without_v1))
   \<and> fs (snd (save_data example_lib frame_without_v1 frame_without_unnamed3 [''data'']
               world_with_old_output)) (test_path [''data''])
       = Some (File (to_csv example_lib frame_without_unnamed3))
   \<and> fs (snd (save_data example_lib frame_without_v1 frame_without_unnamed3 [''data'']
               world_with_old_output)) [''data'', ''raw'', ''notes.txt'']
       = Some (File ''keep'')"
proof -
  have ok: "fst (save_data example_lib frame_without_v1 frame_without_unnamed3 [''data'']
            world_with_old_output) = Inr ()"
    by (simp add: save_data_def Let_def world_with_old_output_def example_world_def
        write_text_def os_mkdir_def node_at_def log_path_def is_dir_def os_error_def)
  have other: "[''data'', ''raw'', ''notes.txt'']
      \<notin> {train_path [''data''], test_path [''data''], log_path}"
    by (simp add: train_path_def test_path_def log_path_def)
  have before: "fs world_with_old_output (train_path [''data'']) = Some (File ''old train'')"
    "fs world_with_old_output (test_path [''data'']) = Some (File ''old test'')"
    "fs world_with_old_output [''data'', ''raw'', ''notes.txt''] = Some (File ''keep'')"
    by (simp_all add: world_with_old_output_def train_path_def test_path_def)
  from save_data_replaces_outputs_only
    [of "[''data'']" example_lib frame_without_v1 frame_without_unnamed3 world_with_old_output]
    ok other before
  show ?thesis by auto
qed

subsection \<open>Looking up the split fraction\<close>

lemma subscript_Inr_iff:
  "subscript obj k = Inr v \<longleftrightarrow> (\<exists>items. obj = YMap items \<and> map_of items (YStr k) = Some v)"
  by (cases obj) (auto simp: subscript_def split: option.splits)

lemma subscript_Inl_kind:
  "subscript obj k = Inl e \<Longrightarrow> kind e = TypeError \<or> kind e = KeyError"
  by (cases obj) (auto simp: subscript_def split: option.splits)

lemma has_test_size_iff:
  "has_test_size params \<longleftrightarrow>
     (\<exists>sec test_size. subscript params ''data_ingestion'' = Inr sec
        \<and> subscript sec ''test_size'' = Inr test_size)"
proof (cases params)
  case (YMap items)
  show ?thesis
  proof (cases "map_of items (YStr ''data_ingestion'')")
    case None
    with YMap show ?thesis by (simp add: has_test_size_def subscript_Inr_iff)
  next
    case (Some sec)
    with YMap show ?thesis
      by (cases sec) (auto simp: has_test_size_def subscript_Inr_iff)
  qed
qed (simp_all add: has_test_size_def subscript_Inr_iff)

lemma lookup_fails:
  assumes "\<not> has_test_size params"
  shows "\<exists>e. (case subscript params ''data_ingestion'' of
                Inl e \<Rightarrow> Inl e | Inr sec \<Rightarrow> subscript sec ''test_size'') = Inl e
            \<and> (kind e = TypeError \<or> kind e = KeyError)"
proof (cases "subscript params ''data_ingestion''")
  case (Inl e)
  with subscript_Inl_kind [OF Inl] show ?thesis by simp
next
  case (Inr sec)
  with assms obtain e where e: "subscript sec ''test_size'' = Inl e"
    by (cases "subscript sec ''test_size''") (auto simp: has_test_size_iff)
  with Inr subscript_Inl_kind [OF e] show ?thesis by simp
qed

subsection \<open>The stages of a run\<close>

text \<open>Where a run of the \<open>try\<close> block can end: at one of six failures, or in \<open>save_data\<close>.\<close>

lemma main_try_cases:
  assumes "main_try L w = (r, w')"
  obtains
    (config) e where
      "load_params L [''params.yaml''] w = (Inl e, w')" "r = Inl e"
  | (lookup) params w1 e where
      "load_params L [''params.yaml''] w = (Inr params, w1)" "w' = w1" "r = Inl e"
      "\<not> has_test_size params" "kind e = TypeError \<or> kind e = KeyError"
  | (fetch) params w1 e where
      "load_params L [''params.yaml''] w = (Inr params, w1)" "has_test_size params"
      "load_data data_url w1 = (Inl e, w')" "r = Inl e"
  | (normalize) params w1 df w2 e where
      "load_params L [''params.yaml''] w = (Inr params, w1)" "has_test_size params"
      "load_data data_url w1 = (Inr df, w2)"
      "preprocess_data df w2 = (Inl e, w')" "r = Inl e"
  | (split) params w1 sec test_size df w2 final_df e where
      "load_params L [''params.yaml''] w = (Inr params, w1)"
      "subscript params ''data_ingestion'' = Inr sec"
      "subscript sec ''test_size'' = Inr test_size"
      "load_data data_url w1 = (Inr df, w2)"
      "preprocess_data df w2 = (Inr final_df, w')"
      "train_test_split L final_df test_size 2 = Inl e" "r = Inl e"
  | (save) params w1 sec test_size df w2 final_df w3 train_df test_df where
      "load_params L [''params.yaml''] w = (Inr params, w1)"
      "subscript params ''data_ingestion'' = Inr sec"
      "subscript sec ''test_size'' = Inr test_size"
      "load_data data_url w1 = (Inr df, w2)"
      "preprocess_data df w2 = (Inr final_df, w3)"
      "train_test_split L final_df test_size 2 = Inr (train_df, test_df)"
      "save_data L train_df test_df [''data''] w3 = (r, w')"
proof -
  obtain r1 w1 where lp: "load_params L [''params.yaml''] w = (r1, w1)"
    by (cases "load_params L [''params.yaml''] w")
  show ?thesis
  proof (cases r1)
    case (Inl e)
    with assms lp show ?thesis by (intro config [of e]) (auto simp: main_try_def)
  next
    case params: (Inr params)
    show ?thesis
    proof (cases "has_test_size params")
      case False
      from lookup_fails [OF this] obtain e where "(case subscript params ''data_ingestion'' of
             Inl e \<Rightarrow> Inl e | Inr sec \<Rightarrow> subscript sec ''test_size'') = Inl e"
        "kind e = TypeError \<or> kind e = KeyError"
        by blast
      with assms lp params False show ?thesis
        by (intro lookup [of params w1 e]) (auto simp: main_try_def split: sum.splits)
    next
      case True
      then obtain sec test_size where sub:
        "subscript params ''data_ingestion'' = Inr sec"
        "subscript sec ''test_size'' = Inr test_size"
        by (auto simp: has_test_size_iff)
      obtain r2 w2 where ld: "load_data data_url w1 = (r2, w2)"
        by (cases "load_data data_url w1")
      show ?thesis
      proof (cases r2)
        case (Inl e)
        with assms lp params sub ld True show ?thesis
          by (intro fetch [of params w1 e]) (auto simp: main_try_def)
      next
        case df: (Inr df)
        obtain r3 w3 where pp: "preprocess_data df w2 = (r3, w3)"
          by (cases "preprocess_data df w2")
        show ?thesis
        proof (cases r3)
          case (Inl e)
          with assms lp params sub ld df pp True show ?thesis
            by (intro normalize [of params w1 df w2 e]) (auto simp: main_try_def)
        next
          case final: (Inr final_df)
          show ?thesis
          proof (cases "train_test_split L final_df test_size 2")
            case (Inl e)
            with assms lp params sub ld df pp final show ?thesis
              by (intro split [of params w1 sec test_size df w2 final_df e])
                 (auto simp: main_try_def)
          next
            case (Inr parts)
            obtain train_df test_df where "parts = (train_df, test_df)" by (cases parts)
            with Inr assms lp params sub ld df pp final show ?thesis
              by (intro save [of params w1 sec test_size df w2 final_df w3 train_df test_df])
                 (auto simp: main_try_def)
          qed
        qed
      qed
    qed
  qed
qed

text \<open>
  A run of the \<open>try\<close> block prints nothing, and outside the log file and the two output
  files it changes no path of the file system (it may create directories); it fetches
  at most once, and only the dataset's URL.
\<close>

lemma main_try_same_but:
  assumes "main_try L w = (r, w')"
  shows "same_but {log_path, train_path [''data''], test_path [''data'']} w w'
       \<and> (requests w' = requests w \<or> requests w' = requests w @ [data_url])"
proof -
  let ?S = "{log_path, train_path [''data''], test_path [''data'']}"
  have S: "log_path \<in> ?S" by simp
  note lp = load_params_same_but [OF _ S]
  note ld = load_data_same_but [OF _ S]
  note pp = preprocess_data_same_but [OF _ S]
  from assms show ?thesis
  proof (cases rule: main_try_cases)
    case (config e)
    from lp [OF config(1)] show ?thesis by simp
  next
    case (lookup params w1 e)
    from lp [OF lookup(1)] lookup(2) show ?thesis by simp
  next
    case (fetch params w1 e)
    from lp [OF fetch(1)] ld [OF fetch(3)] show ?thesis
      by (auto intro: same_but_trans)
  next
    case (normalize params w1 df w2 e)
    from lp [OF normalize(1)] ld [OF normalize(3)] pp [OF normalize(4)] show ?thesis
      by (auto intro: same_but_trans)
  next
    case (split params w1 sec test_size df w2 final_df e)
    from lp [OF split(1)] ld [OF split(4)] pp [OF split(5)] show ?thesis
      by (auto intro: same_but_trans)
  next
    case (save params w1 sec test_size df w2 final_df w3 train_df test_df)
    have "same_but ?S w3 w' \<and> requests w' = requests w3"
      by (rule save_data_same_but [OF save(7)]) simp
    with lp [OF save(1)] ld [OF save(4)] pp [OF save(5)] show ?thesis
      by (auto intro: same_but_trans)
  qed
qed

lemma load_params_fs:
  "load_params L p w = (r, w1) \<Longrightarrow> q \<noteq> log_path \<Longrightarrow> fs w1 q = fs w q"
  by (auto dest!: load_params_world simp: emit_fs_other)

lemma load_data_fs:
  "load_data url w = (r, w1) \<Longrightarrow> q \<noteq> log_path \<Longrightarrow> fs w1 q = fs w q"
  by (auto dest!: load_data_world simp: emit_fs_other)

lemma preprocess_data_fs:
  "preprocess_data df w = (r, w1) \<Longrightarrow> q \<noteq> log_path \<Longrightarrow> fs w1 q = fs w q"
  by (auto dest!: preprocess_data_world simp: emit_fs_other)

lemma load_params_net: "load_params L p w = (r, w1) \<Longrightarrow> net w1 = net w"
  by (auto dest!: load_params_world simp: emit_fields)

text \<open>What \<open>main\<close> adds when the \<open>try\<close> block has raised.\<close>

lemma main_after_failure:
  assumes "main_try L w = (Inl e, w1)"
  shows "main L w =
     (Inr (), print_line (''Error: '' @ msg e)
                (emit ERROR (''Failed to complete the data ingestion process: '' @ msg e) w1))"
  using assms by (simp add: main_def)

lemma main_after_failure_fields:
  assumes "main_try L w = (Inl e, w1)"
  shows "log (snd (main L w)) =
           log w1 @ [(ERROR, ''Failed to complete the data ingestion process: '' @ msg e)]"
    and "console (snd (main L w)) = console w1 @ [''Error: '' @ msg e]"
    and "requests (snd (main L w)) = requests w1"
    and "q \<noteq> log_path \<Longrightarrow> fs (snd (main L w)) q = fs w1 q"
  by (simp_all add: main_after_failure [OF assms] print_line_def emit_def)

text \<open>
  Claim C6. \<open>main\<close> always returns normally, so the exit status of the script is 0.
  Whenever the \<open>try\<close> block ends with an exception \<open>e\<close>, raised by whichever stage, the
  handler at the top adds exactly one record to the log, at error level, with the text
  of \<open>e\<close>, and prints exactly one line, \<open>Error: \<close> followed by the text of \<open>e\<close>; no stage
  prints anything, so this line is all the run prints. A run without an exception prints
  nothing.
\<close>

theorem main_catches_every_exception:
  "fst (main L w) = Inr () \<and> fst (script L w) = 0 \<and> snd (script L w) = snd (main L w)
   \<and> (\<forall>e w1. main_try L w = (Inl e, w1) \<longrightarrow>
         log (snd (main L w))
           = log w1 @ [(ERROR, ''Failed to complete the data ingestion process: '' @ msg e)]
         \<and> console (snd (main L w)) = console w @ [''Error: '' @ msg e])
   \<and> (\<forall>w1. main_try L w = (Inr (), w1) \<longrightarrow> console (snd (main L w)) = console w)"
proof -
  obtain r w1 where run: "main_try L w = (r, w1)"
    by (cases "main_try L w")
  from main_try_same_but [OF run] have con: "console w1 = console w"
    by (simp add: same_but_def)
  have ret: "fst (main L w) = Inr ()"
    using run by (cases r) (simp_all add: main_def)
  then have "fst (script L w) = 0" "snd (script L w) = snd (main L w)"
    by (cases "main L w"; simp add: script_def)+
  moreover have "log (snd (main L w))
           = log w1 @ [(ERROR, ''Failed to complete the data ingestion process: '' @ msg e)]
         \<and> console (snd (main L w)) = console w @ [''Error: '' @ msg e]" if "r = Inl e" for e
    using main_after_failure_fields(1,2) [of L w e w1] run that con by simp
  moreover have "console (snd (main L w)) = console w" if "r = Inr ()"
    using run that con by (simp add: main_def)
  ultimately show ?thesis
    using ret run by simp
qed

theorem main_catches_every_exception_witness:
  "fst (main_try example_lib world_without_unnamed3)
     = Inl (Exn KeyError ([CHR 0x22] @ ''['' @ py_repr ''Unnamed: 3'' @ '']''
                            @ '' not found in axis'' @ [CHR 0x22]))
   \<and> fst (main example_lib world_without_unnamed3) = Inr ()
   \<and> fst (script example_lib world_without_unnamed3) = 0
   \<and> console (snd (main example_lib world_without_unnamed3))
       = [''Error: '' @ [CHR 0x22] @ ''['' @ py_repr ''Unnamed: 3'' @ '']''
                            @ '' not found in axis'' @ [CHR 0x22]]
   \<and> last (log (snd (main example_lib world_without_unnamed3)))
       = (ERROR, ''Failed to complete the data ingestion process: ''
                  @ [CHR 0x22] @ ''['' @ py_repr ''Unnamed: 3'' @ '']''
                  @ '' not found in axis'' @ [CHR 0x22])"
proof -
  let ?e = "Exn KeyError ([CHR 0x22] @ ''['' @ py_repr ''Unnamed: 3'' @ '']''
                            @ '' not found in axis'' @ [CHR 0x22])"
  have run: "fst (main_try example_lib world_without_unnamed3) = Inl ?e"
    by code_simp
  then obtain w1 where "main_try example_lib world_without_unnamed3 = (Inl ?e, w1)"
    by (cases "main_try example_lib world_without_unnamed3") simp
  with main_catches_every_exception [of example_lib world_without_unnamed3]
  have "fst (main example_lib world_without_unnamed3) = Inr ()"
    "fst (script example_lib world_without_unnamed3) = 0"
    "log (snd (main example_lib world_without_unnamed3))
       = log w1 @ [(ERROR, ''Failed to complete the data ingestion process: '' @ msg ?e)]"
    "console (snd (main example_lib world_without_unnamed3))
       = console world_without_unnamed3 @ [''Error: '' @ msg ?e]"
    by simp_all
  moreover have "console world_without_unnamed3 = []"
    by (simp add: world_without_unnamed3_def example_world_def)
  ultimately show ?thesis
    using run by simp
qed

text \<open>
  Claim C7. When \<open>params.yaml\<close> can be read and the YAML parser rejects its text, the
  run ends in \<open>load_params\<close>: the exception is the parser's, no URL is fetched, the log
  gains the record of \<open>load_params\<close> and the record of the top-level handler and nothing
  from a later stage, and no path of the file system other than the log file changes, so
  no output file is produced.
\<close>

theorem malformed_config_stops_before_fetch:
  assumes "open_read [''params.yaml''] w = Inr t"
      and "yaml_safe_load L t = Inl e"
      and "kind e = YAMLError"
  shows "main_try L w = (Inl e, emit ERROR (''YAML error: '' @ msg e) w)
     \<and> requests (snd (main L w)) = requests w
     \<and> log (snd (main L w))
         = log w @ [(ERROR, ''YAML error: '' @ msg e),
                    (ERROR, ''Failed to complete the data ingestion process: '' @ msg e)]
     \<and> console (snd (main L w)) = console w @ [''Error: '' @ msg e]
     \<and> (\<forall>p. p \<noteq> log_path \<longrightarrow> fs (snd (main L w)) p = fs w p)"
proof -
  have lp: "load_params L [''params.yaml''] w = (Inl e, emit ERROR (''YAML error: '' @ msg e) w)"
    using assms by (simp add: load_params_def)
  then have run: "main_try L w = (Inl e, emit ERROR (''YAML error: '' @ msg e) w)"
    by (simp add: main_try_def)
  from main_after_failure_fields [OF run] show ?thesis
    by (simp add: run emit_fields emit_fs_other)
qed

theorem malformed_config_stops_before_fetch_witness:
  "open_read [''params.yaml''] world_malformed_config = Inr ''data_ingestion: [''
   \<and> yaml_safe_load example_lib ''data_ingestion: [''
       = Inl (Exn YAMLError ''while parsing a flow node'')
   \<and> kind (Exn YAMLError ''while parsing a flow node'') = YAMLError
   \<and> fst (main_try example_lib world_malformed_config)
       = Inl (Exn YAMLError ''while parsing a flow node'')
   \<and> requests (snd (main example_lib world_malformed_config)) = []
   \<and> console (snd (main example_lib world_malformed_config))
       = [''Error: while parsing a flow node'']
   \<and> fs (snd (main example_lib world_malformed_config)) (train_path [''data'']) = None
   \<and> fs (snd (main example_lib world_malformed_config)) (test_path [''data'']) = None"
proof -
  have a: "open_read [''params.yaml''] world_malformed_config = Inr ''data_ingestion: [''"
    by (simp add: open_read_def node_at_def world_malformed_config_def example_world_def)
  have b: "yaml_safe_load example_lib ''data_ingestion: [''
       = Inl (Exn YAMLError ''while parsing a flow node'')"
    by (simp add: example_lib_def)
  have c: "kind (Exn YAMLError ''while parsing a flow node'') = YAMLError"
    by simp
  have d: "requests world_malformed_config = []" "console world_malformed_config = []"
    "fs world_malformed_config (train_path [''data'']) = None"
    "fs world_malformed_config (test_path [''data'']) = None"
    "train_path [''data''] \<noteq> log_path" "test_path [''data''] \<noteq> log_path"
    by (simp_all add: world_malformed_config_def example_world_def train_path_def
        test_path_def log_path_def)
  from malformed_config_stops_before_fetch [OF a b c] a b c d show ?thesis
    by simp
qed

text \<open>
  Claim C9. When \<open>load_params\<close> returns a configuration that has no \<open>data_ingestion\<close>
  mapping with a \<open>test_size\<close> item (an empty file, which parses to \<open>None\<close>, is one), the
  run ends at the lookup in \<open>main\<close> with a TypeError or a KeyError, in the world that
  \<open>load_params\<close> left: nothing is fetched. The top-level handler still catches the
  exception, logs it at error level, prints \<open>Error: \<close> and its text, and \<open>main\<close> returns
  normally.
\<close>

theorem missing_test_size_is_caught:
  assumes "load_params L [''params.yaml''] w = (Inr params, w1)"
      and "\<not> has_test_size params"
  shows "\<exists>e. main_try L w = (Inl e, w1)
     \<and> (kind e = TypeError \<or> kind e = KeyError)
     \<and> fst (main L w) = Inr ()
     \<and> requests (snd (main L w)) = requests w
     \<and> log (snd (main L w))
         = log w @ [(DEBUG, ''Parameters retrieved from params.yaml''),
                    (ERROR, ''Failed to complete the data ingestion process: '' @ msg e)]
     \<and> console (snd (main L w)) = console w @ [''Error: '' @ msg e]"
proof -
  from lookup_fails [OF assms(2)] obtain e where
    e: "(case subscript params ''data_ingestion'' of
           Inl e \<Rightarrow> Inl e | Inr sec \<Rightarrow> subscript sec ''test_size'') = Inl e"
    and k: "kind e = TypeError \<or> kind e = KeyError"
    by blast
  from e assms(1) have run: "main_try L w = (Inl e, w1)"
    by (auto simp: main_try_def split: sum.splits)
  from assms(1) have w1: "w1 = emit DEBUG (''Parameters retrieved from '' @ path_str [''params.yaml'']) w"
    by (auto simp: load_params_def split: sum.splits if_splits)
  have "path_str [''params.yaml''] = ''params.yaml''"
    by (simp add: path_str_def)
  with w1 have "log w1 = log w @ [(DEBUG, ''Parameters retrieved from params.yaml'')]"
    "console w1 = console w" "requests w1 = requests w"
    by (simp_all add: emit_fields)
  with main_after_failure_fields(1-3) [OF run] main_after_failure [OF run] run k
  show ?thesis by (intro exI [of _ e]) simp
qed

theorem missing_test_size_is_caught_witness:
  "fst (load_params example_lib [''params.yaml''] world_empty_config) = Inr YNull
   \<and> \<not> has_test_size YNull
   \<and> fst (main_try example_lib world_empty_config)
       = Inl (Exn TypeError (py_repr ''NoneType'' @ '' object is not subscriptable''))
   \<and> fst (main example_lib world_empty_config) = Inr ()
   \<and> requests (snd (main example_lib world_empty_config)) = []
   \<and> console (snd (main example_lib world_empty_config))
       = [''Error: '' @ py_repr ''NoneType'' @ '' object is not subscriptable'']"
proof -
  obtain w1 where lp: "load_params example_lib [''params.yaml''] world_empty_config = (Inr YNull, w1)"
    by (simp add: load_params_def open_read_def node_at_def world_empty_config_def
        example_world_def example_lib_def)
  have no: "\<not> has_test_size YNull"
    by (simp add: has_test_size_def)
  have run: "fst (main_try example_lib world_empty_config)
       = Inl (Exn TypeError (py_repr ''NoneType'' @ '' object is not subscriptable''))"
    using lp by (simp add: main_try_def subscript_def)
  have d: "requests world_empty_config = []" "console world_empty_config = []"
    by (simp_all add: world_empty_config_def example_world_def)
  from missing_test_size_is_caught [OF lp no] run lp no d show ?thesis
    by auto
qed

text \<open>
  Claim C1, as stated, fails for \<open>v1\<close> and \<open>v2\<close>: a dataset without its \<open>v1\<close> column
  passes \<open>preprocess_data\<close>, the run completes, and both output files are written.
\<close>

theorem missing_v1_is_not_rejected:
  "''v1'' \<notin> set (columns frame_without_v1)
   \<and> net world_without_v1 data_url = Inr frame_without_v1
   \<and> fst (preprocess_data frame_without_v1 world_without_v1)
       = Inr \<lparr>columns = [''text''], rows = [(0, [''a'']), (1, [''b'']), (2, [''c''])]\<rparr>
   \<and> fst (main_try example_lib world_without_v1) = Inr ()
   \<and> fs world_without_v1 (train_path [''data'']) = None
   \<and> fs (snd (main example_lib world_without_v1)) (train_path [''data''])
       = Some (File (''text'' @ [CHR 0x0A] @ ''b'' @ [CHR 0x0A] @ ''c'' @ [CHR 0x0A]))
   \<and> fs (snd (main example_lib world_without_v1)) (test_path [''data''])
       = Some (File (''text'' @ [CHR 0x0A] @ ''a'' @ [CHR 0x0A]))"
  by code_simp

text \<open>
  Claim C1 (amended). For every data frame in which one of the three columns
  \<open>Unnamed: 2\<close>, \<open>Unnamed: 3\<close>, \<open>Unnamed: 4\<close> is absent, \<open>preprocess_data\<close> fails with a
  KeyError (the schema error) after logging the missing column at error level; and when
  the fetch yields such a frame, the run fails and writes no output file: no path of the
  file system other than the log file changes.
\<close>

theorem missing_placeholder_is_rejected:
  assumes "\<not> {''Unnamed: 2'', ''Unnamed: 3'', ''Unnamed: 4''} \<subseteq> set (columns df)"
  shows "(\<exists>e. preprocess_data df w
               = (Inl e, emit ERROR (''Missing column in the dataframe: '' @ msg e) w)
            \<and> kind e = KeyError)
     \<and> (net w data_url = Inr df \<longrightarrow>
          (\<exists>e. fst (main_try L w) = Inl e)
          \<and> (\<forall>p. p \<noteq> log_path \<longrightarrow> fs (snd (main L w)) p = fs w p))"
proof -
  from preprocess_data_Inl [OF assms, of w]
  have one: "\<exists>e. preprocess_data df w
               = (Inl e, emit ERROR (''Missing column in the dataframe: '' @ msg e) w)
            \<and> kind e = KeyError"
    by auto
  have two: "(\<exists>e. fst (main_try L w) = Inl e)
          \<and> (\<forall>p. p \<noteq> log_path \<longrightarrow> fs (snd (main L w)) p = fs w p)"
    if fetch: "net w data_url = Inr df"
  proof -
    obtain r w' where run: "main_try L w = (r, w')"
      by (cases "main_try L w")
    have rejected: "preprocess_data df v \<noteq> (Inr final_df, v')" for v final_df v'
      using preprocess_data_Inl [OF assms, of v] by auto
    have fetched: "r2 = Inr df"
      if "load_params L [''params.yaml''] w = (rp, w1)" "load_data data_url w1 = (r2, w2)"
      for rp w1 r2 w2
      using load_data_world [OF that(2)] load_params_net [OF that(1)] fetch by simp
    from run have "(\<exists>e. r = Inl e) \<and> (\<forall>p. p \<noteq> log_path \<longrightarrow> fs w' p = fs w p)"
    proof (cases rule: main_try_cases)
      case (config e)
      then show ?thesis by (simp add: load_params_fs)
    next
      case (lookup params w1 e)
      then show ?thesis by (simp add: load_params_fs)
    next
      case (fetch params w1 e)
      from fetched [OF fetch(1) fetch(3)] show ?thesis by simp
    next
      case (normalize params w1 df2 w2 e)
      then show ?thesis
        by (simp add: load_params_fs [OF normalize(1)] load_data_fs [OF normalize(3)]
            preprocess_data_fs [OF normalize(4)])
    next
      case (split params w1 sec test_size df2 w2 final_df e)
      from fetched [OF split(1) split(4)] split(5) rejected show ?thesis by simp
    next
      case (save params w1 sec test_size df2 w2 final_df w3 train_df test_df)
      from fetched [OF save(1) save(4)] save(5) rejected show ?thesis by simp
    qed
    then obtain e where r: "r = Inl e" and same: "\<forall>p. p \<noteq> log_path \<longrightarrow> fs w' p = fs w p"
      by blast
    from run r have "main_try L w = (Inl e, w')" by simp
    from main_after_failure_fields(4) [OF this] same run r show ?thesis
      by simp
  qed
  from one two show ?thesis by blast
qed

theorem missing_placeholder_is_rejected_witness:
  "\<not> {''Unnamed: 2'', ''Unnamed: 3'', ''Unnamed: 4''} \<subseteq> set (columns frame_without_unnamed3)
   \<and> net world_without_unnamed3 data_url = Inr frame_without_unnamed3
   \<and> (\<exists>e. preprocess_data frame_without_unnamed3 world_without_unnamed3
               = (Inl e, emit ERROR (''Missing column in the dataframe: '' @ msg e)
                           world_without_unnamed3)
            \<and> kind e = KeyError)
   \<and> (\<exists>e. fst (main_try example_lib world_without_unnamed3) = Inl e)
   \<and> fs (snd (main example_lib world_without_unnamed3)) (train_path [''data'']) = None
   \<and> fs (snd (main example_lib world_without_unnamed3)) (test_path [''data'']) = None"
proof -
  have a: "\<not> {''Unnamed: 2'', ''Unnamed: 3'', ''Unnamed: 4''} \<subseteq> set (columns frame_without_unnamed3)"
    by (simp add: frame_without_unnamed3_def)
  have b: "net world_without_unnamed3 data_url = Inr frame_without_unnamed3"
    by (simp add: world_without_unnamed3_def)
  have c: "fs world_without_unnamed3 (train_path [''data'']) = None"
    "fs world_without_unnamed3 (test_path [''data'']) = None"
    "train_path [''data''] \<noteq> log_path" "test_path [''data''] \<noteq> log_path"
    by (simp_all add: world_without_unnamed3_def example_world_def train_path_def
        test_path_def log_path_def)
  from missing_placeholder_is_rejected [OF a, of world_without_unnamed3 example_lib] a b c
  show ?thesis by simp
qed

subsection \<open>The split\<close>

lemma safe_indexing_Inr:
  "safe_indexing df ps = Inr d \<Longrightarrow>
   columns d = columns df \<and> rows d = map ((!) (rows df)) ps"
  by (auto simp: safe_indexing_def split: if_splits)

lemma safe_indexing_in_range:
  "\<forall>i \<in> set ps. i < length (rows df) \<Longrightarrow>
   safe_indexing df ps = Inr \<lparr>columns = columns df, rows = map ((!) (rows df)) ps\<rparr>"
  by (simp add: safe_indexing_def list_all_iff)

lemma fraction_sizes_sum:
  assumes "fraction_sizes n f = Inr (n_train, n_test)"
  shows "n_train + n_test = int n \<and> n_test = \<lceil>float_mul_int f n\<rceil>"
proof -
  define t where "t = \<lceil>float_mul_int f n\<rceil>"
  from assms have "n_train = int n - t \<and> n_test = t"
    unfolding fraction_sizes_def Let_def t_def [symmetric]
    by (simp split: if_splits)
  then show ?thesis
    by (simp add: t_def)
qed

lemma fraction_sizes_Inl:
  assumes "fraction_sizes n f = Inl e"
  shows "kind e = ValueError"
proof -
  define t where "t = \<lceil>float_mul_int f n\<rceil>"
  from assms show ?thesis
    unfolding fraction_sizes_def Let_def t_def [symmetric]
    by (auto split: if_splits)
qed

lemma validate_shuffle_split_sum:
  assumes "validate_shuffle_split n ts = Inr (n_train, n_test)"
  shows "n_train + n_test = int n"
proof (cases ts)
  case (YFloat f)
  with assms fraction_sizes_sum [of n f n_train n_test] show ?thesis
    by (simp add: validate_shuffle_split_def)
next
  case YNull
  with assms fraction_sizes_sum [of n "1 / 4" n_train n_test] show ?thesis
    by (simp add: validate_shuffle_split_def)
next
  case (YInt k)
  with assms show ?thesis
    by (simp add: validate_shuffle_split_def split: if_splits)
qed (use assms in \<open>simp_all add: validate_shuffle_split_def\<close>)

lemma validate_shuffle_split_Inl:
  assumes "validate_shuffle_split n ts = Inl e"
  shows "kind e = ValueError"
proof (cases ts)
  case (YFloat f)
  with assms fraction_sizes_Inl [of n f e] show ?thesis
    by (simp add: validate_shuffle_split_def)
next
  case YNull
  with assms fraction_sizes_Inl [of n "1 / 4" e] show ?thesis
    by (simp add: validate_shuffle_split_def)
next
  case (YInt k)
  with assms show ?thesis
    by (auto simp: validate_shuffle_split_def split: if_splits)
qed (use assms in \<open>auto simp: validate_shuffle_split_def\<close>)

text \<open>A permutation of the positions, cut in two, selects every row exactly once.\<close>

lemma permutation_facts:
  assumes "mset perm = mset [0..<n]"
  shows "distinct perm" "set perm = {..<n}" "length perm = n"
proof -
  have "distinct perm = distinct [0..<n]"
    by (rule mset_eq_imp_distinct_iff [OF assms])
  then show "distinct perm"
    by (simp only: distinct_upt)
  have "set perm = set [0..<n]"
    by (rule mset_eq_setD [OF assms])
  then show "set perm = {..<n}"
    by (simp only: set_upt atLeast0LessThan)
  have "length perm = length [0..<n]"
    by (rule mset_eq_length [OF assms])
  then show "length perm = n"
    by (simp only: length_upt diff_zero)
qed

lemma mset_rows_of_permutation:
  assumes "mset perm = mset [0..<length xs]"
  shows "mset (map ((!) xs) perm) = mset xs"
proof -
  have "mset (map ((!) xs) perm) = image_mset ((!) xs) (mset perm)"
    by simp
  also have "\<dots> = mset (map ((!) xs) [0..<length xs])"
    by (simp add: assms)
  also have "\<dots> = mset xs"
    by (simp add: map_nth)
  finally show ?thesis .
qed

text \<open>
  Every outcome of the split: it raises ValueError when the sizes leave one part empty;
  otherwise, with a true permutation, the test part is the rows at the first \<open>n_test\<close>
  positions of it and the train part the rows at the other positions.
\<close>

lemma train_test_split_outcome:
  assumes perm: "mset (rng_permutation L seed (length (rows df))) = mset [0..<length (rows df)]"
  shows "case train_test_split L df ts seed of
           Inl e \<Rightarrow>
             kind e = ValueError
             \<and> (\<forall>n_train n_test. validate_shuffle_split (length (rows df)) ts = Inr (n_train, n_test)
                   \<longrightarrow> n_test \<le> 0 \<or> int (length (rows df)) \<le> n_test)
         | Inr (train, test) \<Rightarrow>
             (\<exists>n_test. validate_shuffle_split (length (rows df)) ts
                           = Inr (int (length (rows df)) - int n_test, int n_test)
                \<and> 0 < n_test \<and> n_test < length (rows df)
                \<and> test = \<lparr>columns = columns df,
                           rows = map ((!) (rows df))
                                    (take n_test (rng_permutation L seed (length (rows df))))\<rparr>
                \<and> train = \<lparr>columns = columns df,
                            rows = map ((!) (rows df))
                                     (drop n_test (rng_permutation L seed (length (rows df))))\<rparr>)"
proof (cases "validate_shuffle_split (length (rows df)) ts")
  case (Inl e)
  then show ?thesis
    by (simp add: train_test_split_def validate_shuffle_split_Inl)
next
  case (Inr sizes)
  obtain n_train n_test where sizes: "sizes = (n_train, n_test)" by (cases sizes)
  let ?n = "length (rows df)"
  let ?perm = "rng_permutation L seed ?n"
  from Inr sizes have sum: "n_train + n_test = int ?n"
    by (simp add: validate_shuffle_split_sum)
  show ?thesis
  proof (cases "n_test \<le> 0 \<or> int ?n \<le> n_test \<or> n_train \<le> 0 \<or> int ?n \<le> n_train")
    case True
    with sum have "n_test \<le> 0 \<or> int ?n \<le> n_test" by linarith
    with True Inr sizes show ?thesis
      by (simp add: train_test_split_def)
  next
    case False
    from permutation_facts [OF perm] have set: "set ?perm = {..<?n}" and len: "length ?perm = ?n"
      by simp_all
    from False sum have nt: "0 < nat n_test" "nat n_test < ?n" "n_train = int ?n - int (nat n_test)"
      "int (nat n_test) = n_test"
      by linarith+
    have cut: "take (nat n_train) (drop (nat n_test) ?perm) = drop (nat n_test) ?perm"
      using nt len by simp
    have "\<forall>i \<in> set (take (nat n_test) ?perm). i < ?n" "\<forall>i \<in> set (drop (nat n_test) ?perm). i < ?n"
      using set by (auto dest: in_set_takeD in_set_dropD)
    then have idx: "safe_indexing df (take (nat n_test) ?perm)
        = Inr \<lparr>columns = columns df, rows = map ((!) (rows df)) (take (nat n_test) ?perm)\<rparr>"
      "safe_indexing df (drop (nat n_test) ?perm)
        = Inr \<lparr>columns = columns df, rows = map ((!) (rows df)) (drop (nat n_test) ?perm)\<rparr>"
      by (simp_all add: safe_indexing_in_range)
    have guard: "\<not> (n_test \<le> 0 \<or> int ?n \<le> n_test \<or> n_train \<le> 0 \<or> int ?n \<le> n_train)"
      by (rule False)
    have res: "train_test_split L df ts seed
        = Inr (\<lparr>columns = columns df, rows = map ((!) (rows df)) (drop (nat n_test) ?perm)\<rparr>,
               \<lparr>columns = columns df, rows = map ((!) (rows df)) (take (nat n_test) ?perm)\<rparr>)"
      unfolding train_test_split_def Let_def Inr sizes
      by (simp only: sum.case prod.case guard if_False cut idx)
    have "validate_shuffle_split ?n ts = Inr (int ?n - int (nat n_test), int (nat n_test))"
      using Inr sizes nt by simp
    with nt(1,2) show ?thesis
      unfolding res by (simp only: sum.case prod.case) blast
  qed
qed

lemma split_rows:
  assumes perm: "mset perm = mset [0..<length xs]"
  shows "mset (map ((!) xs) (drop k perm)) + mset (map ((!) xs) (take k perm)) = mset xs"
    and "set (drop k perm) \<inter> set (take k perm) = {}"
    and "set (drop k perm) \<union> set (take k perm) = {..<length xs}"
    and "distinct (map fst xs) \<Longrightarrow>
         set (map fst (map ((!) xs) (drop k perm))) \<inter> set (map fst (map ((!) xs) (take k perm))) = {}"
proof -
  note facts = permutation_facts [OF perm]
  have "mset (map ((!) xs) (drop k perm)) + mset (map ((!) xs) (take k perm))
      = mset (map ((!) xs) (take k perm @ drop k perm))"
    by (simp only: map_append mset_append add.commute)
  also have "\<dots> = mset (map ((!) xs) perm)"
    by (simp only: append_take_drop_id)
  also have "\<dots> = mset xs"
    by (rule mset_rows_of_permutation [OF perm])
  finally show "mset (map ((!) xs) (drop k perm)) + mset (map ((!) xs) (take k perm)) = mset xs" .
  from facts(1) show "set (drop k perm) \<inter> set (take k perm) = {}"
    using set_take_disj_set_drop_if_distinct [of perm k k] by auto
  have "set (drop k perm) \<union> set (take k perm) = set (take k perm @ drop k perm)"
    by (simp only: set_append Un_commute)
  with facts(2) show "set (drop k perm) \<union> set (take k perm) = {..<length xs}"
    by simp
  show "set (map fst (map ((!) xs) (drop k perm))) \<inter> set (map fst (map ((!) xs) (take k perm))) = {}"
    if d: "distinct (map fst xs)"
  proof -
    have "image_mset fst (mset (map ((!) xs) perm)) = image_mset fst (mset xs)"
      by (simp only: mset_rows_of_permutation [OF perm])
    then have "mset (map fst (map ((!) xs) perm)) = mset (map fst xs)"
      by (simp only: mset_map)
    from mset_eq_imp_distinct_iff [OF this] d have "distinct (map fst (map ((!) xs) perm))"
      by simp
    moreover have "map fst (map ((!) xs) perm)
        = map fst (map ((!) xs) (take k perm)) @ map fst (map ((!) xs) (drop k perm))"
      by (simp only: map_append [symmetric] append_take_drop_id)
    ultimately show ?thesis
      by (auto simp only: distinct_append)
  qed
qed

subsection \<open>Rounding to a double stays between the neighbouring integers\<close>

lemma round_half_even_between:
  assumes "of_int a \<le> y" "y \<le> of_int b"
  shows "a \<le> round_half_even y \<and> round_half_even y \<le> b"
proof -
  have lo: "a \<le> \<lfloor>y\<rfloor>"
    using assms(1) by (simp add: le_floor_iff)
  have hi: "\<lfloor>y\<rfloor> \<le> b"
    using assms(2) by (simp add: floor_le_iff)
  have up: "\<lfloor>y\<rfloor> + 1 \<le> b" if "y \<noteq> of_int \<lfloor>y\<rfloor>"
  proof -
    have "of_int \<lfloor>y\<rfloor> \<le> y" by simp
    with that have "of_int \<lfloor>y\<rfloor> < y" by linarith
    with assms(2) have "(of_int \<lfloor>y\<rfloor> :: rat) < of_int b" by linarith
    then have "\<lfloor>y\<rfloor> < b" by simp
    then show ?thesis by simp
  qed
  have "round_half_even y = \<lfloor>y\<rfloor> \<or> (round_half_even y = \<lfloor>y\<rfloor> + 1 \<and> y \<noteq> of_int \<lfloor>y\<rfloor>)"
    by (auto simp: round_half_even_def Let_def)
  with lo hi up show ?thesis by auto
qed

lemma binade_le_52:
  assumes "0 < x" "x < 2 ^ 53"
  shows "binade x \<le> 52"
proof (cases "1 \<le> x")
  case False
  then show ?thesis by (simp add: binade_def)
next
  case True
  have "\<lfloor>x\<rfloor> < 2 ^ 53"
    using assms(2) by (simp add: floor_less_iff)
  moreover have "0 \<le> \<lfloor>x\<rfloor>"
    using assms(1) by simp
  ultimately have "nat \<lfloor>x\<rfloor> < 2 ^ 53"
    by (simp add: nat_less_iff)
  then have "floorlog 2 (nat \<lfloor>x\<rfloor>) \<le> 53"
    by (intro floorlog_leI) simp_all
  with True show ?thesis by (simp add: binade_def)
qed

lemma double_round_between:
  assumes "0 \<le> a" "of_int a \<le> x" "x \<le> of_int b" "x < 2 ^ 53"
  shows "of_int a \<le> double_round x \<and> double_round x \<le> of_int b"
proof (cases "x = 0")
  case True
  with assms show ?thesis by (simp add: double_round_def)
next
  case False
  with assms(1,2) have pos: "0 < x"
    by (smt (verit) of_int_0_le_iff order_trans order_le_less)
  define m where "m = nat (52 - binade x)"
  have e: "binade x \<le> 52"
    by (rule binade_le_52 [OF pos assms(4)])
  have q: "pow2 (binade \<bar>x\<bar> - 52) = 1 / 2 ^ m"
  proof (cases "binade x = 52")
    case True
    with pos show ?thesis by (simp add: pow2_def m_def)
  next
    case False
    with e have "binade x - 52 < 0" by simp
    with pos show ?thesis by (simp add: pow2_def m_def)
  qed
  have "of_int (a * 2 ^ m) \<le> x * 2 ^ m" "x * 2 ^ m \<le> of_int (b * 2 ^ m)"
    using assms(2,3) by simp_all
  from round_half_even_between [OF this]
  have "a * 2 ^ m \<le> round_half_even (x * 2 ^ m)" "round_half_even (x * 2 ^ m) \<le> b * 2 ^ m"
    by simp_all
  then have "(of_int (a * 2 ^ m) :: rat) \<le> of_int (round_half_even (x * 2 ^ m))"
    "(of_int (round_half_even (x * 2 ^ m)) :: rat) \<le> of_int (b * 2 ^ m)"
    by (simp_all only: of_int_le_iff)
  then have "(of_int a :: rat) \<le> of_int (round_half_even (x * 2 ^ m)) / 2 ^ m"
    "(of_int (round_half_even (x * 2 ^ m)) :: rat) / 2 ^ m \<le> of_int b"
    by (simp_all add: le_divide_eq divide_le_eq)
  moreover have "double_round x = of_int (round_half_even (x * 2 ^ m)) / 2 ^ m"
    using False q by (simp add: double_round_def Let_def)
  ultimately show ?thesis by simp
qed

text \<open>
  For fewer than \<open>2\<^sup>5\<^sup>3\<close> rows the count converts exactly, and the rounded product lies
  between the integers around the exact product: \<open>ceil\<close> of it is the exact ceiling or
  one less.
\<close>

lemma ceiling_float_mul_int:
  assumes "0 < f" "f < 1" "n < 2 ^ 53"
  shows "\<lceil>f * of_nat n\<rceil> - 1 \<le> \<lceil>float_mul_int f n\<rceil>
       \<and> \<lceil>float_mul_int f n\<rceil> \<le> \<lceil>f * of_nat n\<rceil>"
proof -
  have n: "(of_nat n :: rat) < 2 ^ 53"
    using assms(3) by (metis of_nat_less_iff of_nat_numeral of_nat_power)
  have "of_int (int n) \<le> double_round (of_nat n) \<and> double_round (of_nat n) \<le> of_int (int n)"
    by (rule double_round_between) (use n in simp_all)
  then have exact: "double_round (of_nat n) = of_nat n"
    by simp
  let ?x = "f * of_nat n"
  have x0: "0 \<le> ?x" using assms(1) by simp
  have "?x \<le> 1 * of_nat n"
    by (intro mult_right_mono) (use assms(2) in simp_all)
  then have "?x \<le> of_nat n"
    by simp
  with n have x53: "?x < 2 ^ 53" by linarith
  have "of_int \<lfloor>?x\<rfloor> \<le> double_round ?x \<and> double_round ?x \<le> of_int \<lceil>?x\<rceil>"
    by (rule double_round_between) (use x0 x53 in simp_all)
  then have "\<lfloor>?x\<rfloor> \<le> \<lceil>double_round ?x\<rceil>" "\<lceil>double_round ?x\<rceil> \<le> \<lceil>?x\<rceil>"
    by (linarith, simp add: ceiling_le_iff)
  moreover have "\<lceil>?x\<rceil> - 1 \<le> \<lfloor>?x\<rfloor>"
    by linarith
  ultimately show ?thesis
    by (simp add: float_mul_int_def exact)
qed

lemma mset_rotate_eq: "mset (rotate n xs) = mset xs"
proof (induction n)
  case 0
  show ?case by simp
next
  case (Suc n)
  have "mset (rotate1 ys) = mset ys" for ys :: "'a list"
    by (cases ys) simp_all
  with Suc show ?case by simp
qed

lemma split_float_outcome:
  assumes f: "0 < f" "f < 1"
    and perm: "mset (rng_permutation L seed (length (rows df))) = mset [0..<length (rows df)]"
  shows "case train_test_split L df (YFloat f) seed of
           Inl e \<Rightarrow>
             kind e = ValueError
             \<and> (\<lceil>float_mul_int f (length (rows df))\<rceil> \<le> 0
                \<or> int (length (rows df)) \<le> \<lceil>float_mul_int f (length (rows df))\<rceil>)
         | Inr (train, test) \<Rightarrow>
             (\<exists>n_test. int n_test = \<lceil>float_mul_int f (length (rows df))\<rceil>
                \<and> 0 < n_test \<and> n_test < length (rows df)
                \<and> test = \<lparr>columns = columns df,
                           rows = map ((!) (rows df))
                                    (take n_test (rng_permutation L seed (length (rows df))))\<rparr>
                \<and> train = \<lparr>columns = columns df,
                            rows = map ((!) (rows df))
                                     (drop n_test (rng_permutation L seed (length (rows df))))\<rparr>)"
proof -
  let ?n = "length (rows df)"
  let ?t = "\<lceil>float_mul_int f ?n\<rceil>"
  have v: "validate_shuffle_split ?n (YFloat f)
      = (if int ?n - ?t = 0 then Inl (Exn ValueError ''the resulting train set will be empty'')
         else Inr (int ?n - ?t, ?t))"
    using f by (simp add: validate_shuffle_split_def fraction_sizes_def Let_def)
  show ?thesis
  proof (cases "train_test_split L df (YFloat f) seed")
    case (Inl e)
    with train_test_split_outcome [OF perm, of "YFloat f"] v show ?thesis
      by (cases "int ?n - ?t = 0") auto
  next
    case (Inr parts)
    obtain train test where parts: "parts = (train, test)" by (cases parts)
    from train_test_split_outcome [OF perm, of "YFloat f"] Inr parts
    obtain n_test where k: "validate_shuffle_split ?n (YFloat f) = Inr (int ?n - int n_test, int n_test)"
      "0 < n_test" "n_test < ?n"
      "test = \<lparr>columns = columns df,
               rows = map ((!) (rows df)) (take n_test (rng_permutation L seed ?n))\<rparr>"
      "train = \<lparr>columns = columns df,
                rows = map ((!) (rows df)) (drop n_test (rng_permutation L seed ?n))\<rparr>"
      by auto
    from k(1) v have "int n_test = ?t"
      by (simp split: if_splits)
    with k(2-5) Inr parts show ?thesis
      by (simp only: sum.case prod.case) blast
  qed
qed

text \<open>
  Claim C2. For every data frame and every fraction \<open>f\<close> with \<open>0 < f < 1\<close>, given that the
  shuffle of the library is a permutation of the row positions: every split that
  \<open>train_test_split\<close> with seed 2 produces consists of two selections of rows of the
  frame, at two disjoint sets of positions that together are all positions, so that the
  rows of train and test together are, as a multiset, the rows of the frame; and when no
  index label occurs twice in the frame, no index label occurs in both parts. The one
  case in which no split is produced is the ValueError of the library for a test or
  train part that would be empty.
\<close>

theorem split_is_a_partition:
  assumes "0 < f" "f < 1"
    and "mset (rng_permutation L 2 (length (rows df))) = mset [0..<length (rows df)]"
  shows "case train_test_split L df (YFloat f) 2 of
           Inl e \<Rightarrow>
             kind e = ValueError
             \<and> (\<lceil>float_mul_int f (length (rows df))\<rceil> \<le> 0
                \<or> int (length (rows df)) \<le> \<lceil>float_mul_int f (length (rows df))\<rceil>)
         | Inr (train, test) \<Rightarrow>
             mset (rows train) + mset (rows test) = mset (rows df)
             \<and> columns train = columns df \<and> columns test = columns df
             \<and> (\<exists>pos_train pos_test.
                   rows train = map ((!) (rows df)) pos_train
                   \<and> rows test = map ((!) (rows df)) pos_test
                   \<and> set pos_train \<inter> set pos_test = {}
                   \<and> set pos_train \<union> set pos_test = {..<length (rows df)})
             \<and> (distinct (map fst (rows df)) \<longrightarrow>
                   set (map fst (rows train)) \<inter> set (map fst (rows test)) = {})"
proof (cases "train_test_split L df (YFloat f) 2")
  case (Inl e)
  with split_float_outcome [OF assms] show ?thesis by simp
next
  case (Inr parts)
  obtain train test where parts: "parts = (train, test)" by (cases parts)
  let ?perm = "rng_permutation L 2 (length (rows df))"
  from split_float_outcome [OF assms] Inr parts obtain k where
    test: "test = \<lparr>columns = columns df, rows = map ((!) (rows df)) (take k ?perm)\<rparr>"
    and train: "train = \<lparr>columns = columns df, rows = map ((!) (rows df)) (drop k ?perm)\<rparr>"
    by auto
  note sr = split_rows [OF assms(3), of k]
  have "mset (rows train) + mset (rows test) = mset (rows df)"
    using sr(1) by (simp add: train test)
  moreover have "columns train = columns df" "columns test = columns df"
    by (simp_all add: train test)
  moreover have "\<exists>pos_train pos_test.
                   rows train = map ((!) (rows df)) pos_train
                   \<and> rows test = map ((!) (rows df)) pos_test
                   \<and> set pos_train \<inter> set pos_test = {}
                   \<and> set pos_train \<union> set pos_test = {..<length (rows df)}"
    using sr(2,3) by (intro exI [of _ "drop k ?perm"] exI [of _ "take k ?perm"])
      (simp add: train test)
  moreover have "set (map fst (rows train)) \<inter> set (map fst (rows test)) = {}"
    if "distinct (map fst (rows df))"
    using sr(4) [OF that] by (simp add: train test)
  ultimately show ?thesis
    by (simp add: Inr parts)
qed

theorem split_is_a_partition_witness:
  "0 < double_0_2 \<and> double_0_2 < 1
   \<and> mset (rng_permutation example_lib 2 (length (rows example_frame)))
       = mset [0..<length (rows example_frame)]
   \<and> distinct (map fst (rows example_frame))
   \<and> (\<exists>train test.
         train_test_split example_lib example_frame (YFloat double_0_2) 2 = Inr (train, test)
         \<and> map fst (rows train) = [5, 6, 7, 8, 9, 0, 1, 2]
         \<and> map fst (rows test) = [3, 4]
         \<and> mset (rows train) + mset (rows test) = mset (rows example_frame)
         \<and> set (map fst (rows train)) \<inter> set (map fst (rows test)) = {})"
proof -
  have f: "0 < double_0_2" "double_0_2 < 1"
    by (simp_all add: double_0_2_def)
  have perm: "mset (rng_permutation example_lib 2 (length (rows example_frame)))
       = mset [0..<length (rows example_frame)]"
    by (simp add: example_lib_def mset_rotate_eq del: mset_upt)
  have d: "distinct (map fst (rows example_frame))"
    by (simp add: example_frame_def)
  have ev: "case train_test_split example_lib example_frame (YFloat double_0_2) 2 of
              Inl e \<Rightarrow> False
            | Inr (train, test) \<Rightarrow>
                map fst (rows train) = [5, 6, 7, 8, 9, 0, 1, 2] \<and> map fst (rows test) = [3, 4]"
    by code_simp
  then obtain train test where
    s: "train_test_split example_lib example_frame (YFloat double_0_2) 2 = Inr (train, test)"
    and l: "map fst (rows train) = [5, 6, 7, 8, 9, 0, 1, 2]" "map fst (rows test) = [3, 4]"
    by (cases "train_test_split example_lib example_frame (YFloat double_0_2) 2") auto
  from split_is_a_partition [OF f perm] s d
  have "mset (rows train) + mset (rows test) = mset (rows example_frame)"
    "set (map fst (rows train)) \<inter> set (map fst (rows test)) = {}"
    by simp_all
  with s l have "\<exists>train test.
         train_test_split example_lib example_frame (YFloat double_0_2) 2 = Inr (train, test)
         \<and> map fst (rows train) = [5, 6, 7, 8, 9, 0, 1, 2]
         \<and> map fst (rows test) = [3, 4]
         \<and> mset (rows train) + mset (rows test) = mset (rows example_frame)
         \<and> set (map fst (rows train)) \<inter> set (map fst (rows test)) = {}"
    by (intro exI [of _ train] exI [of _ test]) simp
  with f perm d show ?thesis by blast
qed

text \<open>
  Claim C3. For every data frame of \<open>n\<close> rows and every fraction \<open>f\<close> with \<open>0 < f < 1\<close>,
  given that the shuffle of the library is a permutation of the row positions: every
  split that \<open>train_test_split\<close> with seed 2 produces has \<open>|train| + |test| = n\<close> and
  \<open>|test| = ceil(f * n)\<close>, the product taken in float arithmetic, which for fewer than
  \<open>2\<^sup>5\<^sup>3\<close> rows is the ceiling of the exact product or one less; each CSV file has one
  record per row after its header. In particular, for 10 rows and \<open>test_size = 0.2\<close> the
  split is produced, the test file has the header and 2 data records, the train file
  the header and 8, and no row position is in both.
\<close>

theorem split_sizes:
  assumes "0 < f" "f < 1"
    and "mset (rng_permutation L 2 (length (rows df))) = mset [0..<length (rows df)]"
  shows "(case train_test_split L df (YFloat f) 2 of
            Inl e \<Rightarrow>
              kind e = ValueError
              \<and> (\<lceil>float_mul_int f (length (rows df))\<rceil> \<le> 0
                 \<or> int (length (rows df)) \<le> \<lceil>float_mul_int f (length (rows df))\<rceil>)
          | Inr (train, test) \<Rightarrow>
              length (rows train) + length (rows test) = length (rows df)
              \<and> int (length (rows test)) = \<lceil>float_mul_int f (length (rows df))\<rceil>
              \<and> (length (rows df) < 2 ^ 53 \<longrightarrow>
                    \<lceil>f * of_nat (length (rows df))\<rceil> - 1 \<le> int (length (rows test))
                    \<and> int (length (rows test)) \<le> \<lceil>f * of_nat (length (rows df))\<rceil>)
              \<and> csv_records L train = columns df # tl (csv_records L train)
              \<and> length (tl (csv_records L train)) = length (rows train)
              \<and> csv_records L test = columns df # tl (csv_records L test)
              \<and> length (tl (csv_records L test)) = length (rows test))
     \<and> (f = double_0_2 \<and> length (rows df) = 10 \<longrightarrow>
          (\<exists>train test pos_train pos_test.
             train_test_split L df (YFloat f) 2 = Inr (train, test)
             \<and> length (rows test) = 2 \<and> length (rows train) = 8
             \<and> length (csv_records L test) = 1 + 2 \<and> length (csv_records L train) = 1 + 8
             \<and> rows train = map ((!) (rows df)) pos_train
             \<and> rows test = map ((!) (rows df)) pos_test
             \<and> set pos_train \<inter> set pos_test = {}))"
proof -
  let ?n = "length (rows df)"
  let ?perm = "rng_permutation L 2 ?n"
  let ?t = "\<lceil>float_mul_int f ?n\<rceil>"
  note out = split_float_outcome [OF assms]
  have len: "length ?perm = ?n"
    by (rule permutation_facts(3) [OF assms(3)])
  have parts: "length (rows train) + length (rows test) = ?n
      \<and> int (length (rows test)) = ?t
      \<and> csv_records L train = columns df # tl (csv_records L train)
      \<and> length (tl (csv_records L train)) = length (rows train)
      \<and> csv_records L test = columns df # tl (csv_records L test)
      \<and> length (tl (csv_records L test)) = length (rows test)
      \<and> (\<exists>pos_train pos_test. rows train = map ((!) (rows df)) pos_train
             \<and> rows test = map ((!) (rows df)) pos_test
             \<and> set pos_train \<inter> set pos_test = {})"
    if s: "train_test_split L df (YFloat f) 2 = Inr (train, test)" for train test
  proof -
    from out s obtain k where k: "int k = ?t" "0 < k" "k < ?n"
      and test: "test = \<lparr>columns = columns df, rows = map ((!) (rows df)) (take k ?perm)\<rparr>"
      and train: "train = \<lparr>columns = columns df, rows = map ((!) (rows df)) (drop k ?perm)\<rparr>"
      by auto
    have "length (rows test) = k" "length (rows train) = ?n - k"
      using k len by (simp_all add: test train)
    moreover have "set (drop k ?perm) \<inter> set (take k ?perm) = {}"
      by (rule split_rows(2) [OF assms(3)])
    ultimately show ?thesis
      using k by (auto simp: csv_records_def test train)
  qed
  have general: "case train_test_split L df (YFloat f) 2 of
            Inl e \<Rightarrow>
              kind e = ValueError
              \<and> (?t \<le> 0 \<or> int ?n \<le> ?t)
          | Inr (train, test) \<Rightarrow>
              length (rows train) + length (rows test) = ?n
              \<and> int (length (rows test)) = ?t
              \<and> (?n < 2 ^ 53 \<longrightarrow>
                    \<lceil>f * of_nat ?n\<rceil> - 1 \<le> int (length (rows test))
                    \<and> int (length (rows test)) \<le> \<lceil>f * of_nat ?n\<rceil>)
              \<and> csv_records L train = columns df # tl (csv_records L train)
              \<and> length (tl (csv_records L train)) = length (rows train)
              \<and> csv_records L test = columns df # tl (csv_records L test)
              \<and> length (tl (csv_records L test)) = length (rows test)"
  proof (cases "train_test_split L df (YFloat f) 2")
    case (Inl e)
    with out show ?thesis by simp
  next
    case (Inr p)
    obtain train test where p: "p = (train, test)" by (cases p)
    from parts [of train test] Inr p
    have a: "length (rows train) + length (rows test) = ?n" "int (length (rows test)) = ?t"
      "csv_records L train = columns df # tl (csv_records L train)"
      "length (tl (csv_records L train)) = length (rows train)"
      "csv_records L test = columns df # tl (csv_records L test)"
      "length (tl (csv_records L test)) = length (rows test)"
      by simp_all
    have "\<lceil>f * of_nat ?n\<rceil> - 1 \<le> int (length (rows test))
        \<and> int (length (rows test)) \<le> \<lceil>f * of_nat ?n\<rceil>" if "?n < 2 ^ 53"
      using ceiling_float_mul_int [OF assms(1,2) that] a(2) by simp
    with a show ?thesis
      by (simp only: Inr p sum.case prod.case) blast
  qed
  have example: "\<exists>train test pos_train pos_test.
             train_test_split L df (YFloat f) 2 = Inr (train, test)
             \<and> length (rows test) = 2 \<and> length (rows train) = 8
             \<and> length (csv_records L test) = 1 + 2 \<and> length (csv_records L train) = 1 + 8
             \<and> rows train = map ((!) (rows df)) pos_train
             \<and> rows test = map ((!) (rows df)) pos_test
             \<and> set pos_train \<inter> set pos_test = {}"
    if ex: "f = double_0_2" "?n = 10"
  proof -
    have two: "\<lceil>float_mul_int double_0_2 10\<rceil> = 2"
      by code_simp
    with ex have t: "?t = 2" by simp
    have possible: "\<not> (?t \<le> 0 \<or> int ?n \<le> ?t)"
    proof
      assume "?t \<le> 0 \<or> int ?n \<le> ?t"
      then have "(2::int) \<le> 0 \<or> int ?n \<le> 2"
        by (simp only: t)
      with ex(2) show False by simp
    qed
    obtain train test where s: "train_test_split L df (YFloat f) 2 = Inr (train, test)"
    proof (cases "train_test_split L df (YFloat f) 2")
      case (Inl e)
      with out have "?t \<le> 0 \<or> int ?n \<le> ?t"
        by (simp only: sum.case)
      with possible show ?thesis by contradiction
    next
      case (Inr p)
      with that show ?thesis by (cases p) simp
    qed
    from parts [OF s] t ex(2) obtain pos_train pos_test where
      "length (rows test) = 2" "length (rows train) = 8"
      "length (csv_records L test) = 1 + 2" "length (csv_records L train) = 1 + 8"
      "rows train = map ((!) (rows df)) pos_train"
      "rows test = map ((!) (rows df)) pos_test"
      "set pos_train \<inter> set pos_test = {}"
      by (auto simp: csv_records_def)
    with s show ?thesis by blast
  qed
  from general example show ?thesis by blast
qed

theorem split_sizes_witness:
  "0 < double_0_2 \<and> double_0_2 < 1
   \<and> mset (rng_permutation example_lib 2 (length (rows example_frame)))
       = mset [0..<length (rows example_frame)]
   \<and> length (rows example_frame) = 10
   \<and> (\<exists>train test.
         train_test_split example_lib example_frame (YFloat double_0_2) 2 = Inr (train, test)
         \<and> length (rows test) = 2 \<and> length (rows train) = 8
         \<and> length (csv_records example_lib test) = 1 + 2
         \<and> length (csv_records example_lib train) = 1 + 8)
   \<and> fs (snd (main example_lib example_world)) (test_path [''data''])
       = Some (File (''target,text'' @ [CHR 0x0A] @ ''ham,d'' @ [CHR 0x0A]
                     @ ''spam,e'' @ [CHR 0x0A]))"
proof -
  have f: "0 < double_0_2" "double_0_2 < 1"
    by (simp_all add: double_0_2_def)
  have perm: "mset (rng_permutation example_lib 2 (length (rows example_frame)))
       = mset [0..<length (rows example_frame)]"
    by (simp add: example_lib_def mset_rotate_eq del: mset_upt)
  have ten: "length (rows example_frame) = 10"
    by (simp add: example_frame_def)
  have written: "fs (snd (main example_lib example_world)) (test_path [''data''])
       = Some (File (''target,text'' @ [CHR 0x0A] @ ''ham,d'' @ [CHR 0x0A]
                     @ ''spam,e'' @ [CHR 0x0A]))"
    by code_simp
  from split_sizes [OF f perm] ten
  have "\<exists>train test pos_train pos_test.
         train_test_split example_lib example_frame (YFloat double_0_2) 2 = Inr (train, test)
         \<and> length (rows test) = 2 \<and> length (rows train) = 8
         \<and> length (csv_records example_lib test) = 1 + 2
         \<and> length (csv_records example_lib train) = 1 + 8
         \<and> rows train = map ((!) (rows example_frame)) pos_train
         \<and> rows test = map ((!) (rows example_frame)) pos_test
         \<and> set pos_train \<inter> set pos_test = {}"
    by simp
  then have "\<exists>train test.
         train_test_split example_lib example_frame (YFloat double_0_2) 2 = Inr (train, test)
         \<and> length (rows test) = 2 \<and> length (rows train) = 8
         \<and> length (csv_records example_lib test) = 1 + 2
         \<and> length (csv_records example_lib train) = 1 + 8"
    by blast
  with f perm ten written show ?thesis by blast
qed

subsection \<open>A completed run\<close>

lemma load_params_Inr:
  "load_params L p w = (Inr params, w1) \<Longrightarrow>
   \<exists>t. open_read p w = Inr t \<and> yaml_safe_load L t = Inr params"
  by (auto simp: load_params_def split: sum.splits if_splits)

lemma preprocess_data_result:
  "fst (preprocess_data df w) = fst (preprocess_data df v)"
  by (simp add: preprocess_data_def Let_def split: sum.splits)

text \<open>
  What a run that completes has read, and what it has written: the two files hold the
  serialisations of the split of the normalised dataset, all of them determined by the
  text of the configuration file and the fetched dataset.
\<close>

lemma main_try_completed:
  assumes "main_try L w = (Inr u, w')"
  shows "\<exists>t params sec test_size df final_df train_df test_df.
           open_read [''params.yaml''] w = Inr t
         \<and> yaml_safe_load L t = Inr params
         \<and> subscript params ''data_ingestion'' = Inr sec
         \<and> subscript sec ''test_size'' = Inr test_size
         \<and> net w data_url = Inr df
         \<and> (\<forall>v. fst (preprocess_data df v) = Inr final_df)
         \<and> train_test_split L final_df test_size 2 = Inr (train_df, test_df)
         \<and> fs w' (train_path [''data'']) = Some (File (to_csv L train_df))
         \<and> fs w' (test_path [''data'']) = Some (File (to_csv L test_df))"
  using assms
proof (cases rule: main_try_cases)
  case (save params w1 sec test_size df w2 final_df w3 train_df test_df)
  from load_params_Inr [OF save(1)] obtain t where
    t: "open_read [''params.yaml''] w = Inr t" "yaml_safe_load L t = Inr params"
    by blast
  from load_data_world [OF save(4)] load_params_net [OF save(1)]
  have df: "net w data_url = Inr df" by simp
  have final: "fst (preprocess_data df v) = Inr final_df" for v
    using preprocess_data_result [of df v w2] save(5) by simp
  note save_data_content [OF save(7)]
  with t save(2,3,6) df final show ?thesis by blast
qed simp_all

text \<open>
  Claim C4. Take two runs with the same libraries, in two worlds that may differ in
  everything (files already there, log, clock, earlier requests) except that opening
  \<open>params.yaml\<close> gives the same result and the dataset behind the URL is the same. When
  both runs complete, \<open>train.csv\<close> holds the same text after both, and so does
  \<open>test.csv\<close>: each is the serialisation of one part of the split, which the
  configuration text, the dataset and the seed 2 determine.
\<close>

theorem runs_are_reproducible:
  assumes "open_read [''params.yaml''] w1 = open_read [''params.yaml''] w2"
      and "net w1 data_url = net w2 data_url"
      and "fst (main_try L w1) = Inr ()" and "fst (main_try L w2) = Inr ()"
  shows "fs (snd (main L w1)) (train_path [''data'']) = fs (snd (main L w2)) (train_path [''data''])
     \<and> fs (snd (main L w1)) (test_path [''data'']) = fs (snd (main L w2)) (test_path [''data''])
     \<and> (\<exists>train_df test_df.
           fs (snd (main L w1)) (train_path [''data'']) = Some (File (to_csv L train_df))
         \<and> fs (snd (main L w1)) (test_path [''data'']) = Some (File (to_csv L test_df)))"
proof -
  obtain v1 v2 where run: "main_try L w1 = (Inr (), v1)" "main_try L w2 = (Inr (), v2)"
    using assms(3,4) by (cases "main_try L w1"; cases "main_try L w2") auto
  then have m: "snd (main L w1) = v1" "snd (main L w2) = v2"
    by (simp_all add: main_def)
  from main_try_completed [OF run(1)] obtain t params sec test_size df final_df train_df test_df
    where a: "open_read [''params.yaml''] w1 = Inr t" "yaml_safe_load L t = Inr params"
      "subscript params ''data_ingestion'' = Inr sec" "subscript sec ''test_size'' = Inr test_size"
      "net w1 data_url = Inr df" "\<forall>v. fst (preprocess_data df v) = Inr final_df"
      "train_test_split L final_df test_size 2 = Inr (train_df, test_df)"
      "fs v1 (train_path [''data'']) = Some (File (to_csv L train_df))"
      "fs v1 (test_path [''data'']) = Some (File (to_csv L test_df))"
    by blast
  from main_try_completed [OF run(2)] obtain t' params' sec' test_size' df' final_df' train_df' test_df'
    where b: "open_read [''params.yaml''] w2 = Inr t'" "yaml_safe_load L t' = Inr params'"
      "subscript params' ''data_ingestion'' = Inr sec'" "subscript sec' ''test_size'' = Inr test_size'"
      "net w2 data_url = Inr df'" "\<forall>v. fst (preprocess_data df' v) = Inr final_df'"
      "train_test_split L final_df' test_size' 2 = Inr (train_df', test_df')"
      "fs v2 (train_path [''data'']) = Some (File (to_csv L train_df'))"
      "fs v2 (test_path [''data'']) = Some (File (to_csv L test_df'))"
    by blast
  from a(1) b(1) assms(1) have "t' = t" by simp
  with a(2) b(2) have "params' = params" by simp
  with a(3) b(3) have "sec' = sec" by simp
  with a(4) b(4) have ts: "test_size' = test_size" by simp
  from a(5) b(5) assms(2) have "df' = df" by simp
  with a(6) b(6) have "Inr final_df' = (Inr final_df :: exn + 'a dataframe)"
    by (metis)
  then have "final_df' = final_df" by simp
  with ts a(7) b(7) have "train_df' = train_df" "test_df' = test_df" by simp_all
  with a(8,9) b(8,9) m show ?thesis by auto
qed

theorem runs_are_reproducible_witness:
  "open_read [''params.yaml''] example_world = open_read [''params.yaml''] world_with_old_output
   \<and> net example_world data_url = net world_with_old_output data_url
   \<and> fst (main_try example_lib example_world) = Inr ()
   \<and> fst (main_try example_lib world_with_old_output) = Inr ()
   \<and> clock example_world \<noteq> clock world_with_old_output
   \<and> fs example_world (train_path [''data'']) = None
   \<and> fs world_with_old_output (train_path [''data'']) = Some (File ''old train'')
   \<and> fs (snd (main example_lib example_world)) (train_path [''data''])
       = fs (snd (main example_lib world_with_old_output)) (train_path [''data''])
   \<and> fs (snd (main example_lib example_world)) (test_path [''data''])
       = fs (snd (main example_lib world_with_old_output)) (test_path [''data''])"
proof -
  have a: "open_read [''params.yaml''] example_world
      = open_read [''params.yaml''] world_with_old_output"
    by (simp add: open_read_def node_at_def world_with_old_output_def example_world_def)
  have b: "net example_world data_url = net world_with_old_output data_url"
    by (simp add: world_with_old_output_def)
  have c: "fst (main_try example_lib example_world) = Inr ()"
    by code_simp
  have d: "fst (main_try example_lib world_with_old_output) = Inr ()"
    by code_simp
  have e: "clock example_world \<noteq> clock world_with_old_output"
    "fs example_world (train_path [''data'']) = None"
    "fs world_with_old_output (train_path [''data'']) = Some (File ''old train'')"
    by (simp_all add: world_with_old_output_def example_world_def train_path_def log_path_def)
  from runs_are_reproducible [OF a b c d] a b c d e show ?thesis
    by simp
qed

end
